theory Spec2Isabelle
  imports Complex_Main "HOL-Library.Sublist"
begin

section \<open>Values\<close>

text \<open>
  The script \<^verbatim>\<open>scripts/data_insertion.py\<close> cleans six pandas tables and loads them
  into PostgreSQL. A cell of a table, and a member of a parameter tuple, is a scalar:
  one of the three missing-value markers (\<^verbatim>\<open>float('nan')\<close>, \<^verbatim>\<open>pd.NA\<close>, \<^verbatim>\<open>None\<close>), a
  numpy scalar (\<^verbatim>\<open>numpy.int64\<close>, \<^verbatim>\<open>numpy.float64\<close>, \<^verbatim>\<open>numpy.bool_\<close>), or a plain Python
  \<^verbatim>\<open>int\<close>, \<^verbatim>\<open>float\<close>, \<^verbatim>\<open>bool\<close> or \<^verbatim>\<open>str\<close>. A finite float is modelled by the rational
  number it denotes (the not-a-number float is the marker \<open>NaN\<close>; the two infinities are
  outside the model). Integers are not computed with, only compared, so they are
  unbounded here; the one place where the 64-bit range matters, the cast of a float to
  \<^verbatim>\<open>Int64\<close>, checks it. A character is a code point below 256.
\<close>

datatype scalar =
    NaN | PdNA | PyNone
  | NpInt int | NpFloat rat | NpBool bool
  | PyInt int | PyFloat rat | PyBool bool
  | PyStr string

datatype error =
    KeyError "string list"
  | TypeError
  | ValueError "string list"
  | FileNotFoundError string
  | RuntimeError "string list"
  | DatabaseError nat

text \<open>\<^verbatim>\<open>pd.isna(x)\<close> on a scalar.\<close>

fun isna :: "scalar \<Rightarrow> bool" where
  "isna NaN = True"
| "isna PdNA = True"
| "isna PyNone = True"
| "isna _ = False"

text \<open>
  \<^verbatim>\<open>hasattr(x, "item")\<close> and \<^verbatim>\<open>x.item()\<close>: \<open>None\<close> when the scalar has no such
  method, otherwise what the call gives. Only numpy scalars have it, and there it
  returns the plain Python value.
\<close>

fun item :: "scalar \<Rightarrow> (error + scalar) option" where
  "item (NpInt n) = Some (Inr (PyInt n))"
| "item (NpFloat q) = Some (Inr (PyFloat q))"
| "item (NpBool b) = Some (Inr (PyBool b))"
| "item _ = None"

text \<open>
  \<^verbatim>\<open>
  def to_py(x):
      if pd.isna(x):
          return None
      if hasattr(x, "item"):
          try:
              return x.item()
          except Exception:
              pass
      return x
  \<close>
\<close>

definition to_py :: "scalar \<Rightarrow> scalar" where
  "to_py x =
     (if isna x then PyNone
      else case item x of
             Some (Inr v) \<Rightarrow> v
           | Some (Inl e) \<Rightarrow> x
           | None \<Rightarrow> x)"

section \<open>Text\<close>

text \<open>
  Python's \<^verbatim>\<open>str.strip()\<close> removes the characters for which \<^verbatim>\<open>str.isspace\<close> holds from
  both ends; below 256 these are the code points 9 to 13, 28 to 32, 133 and 160.
  \<^verbatim>\<open>str.lower()\<close> maps \<^verbatim>\<open>A\<close> to \<^verbatim>\<open>Z\<close> and the upper-case letters of Latin-1 (192 to 222
  without the multiplication sign 215) to the code point 32 above.
\<close>

definition py_isspace :: "char \<Rightarrow> bool" where
  "py_isspace c =
     (let n = (of_char c :: nat)
      in (9 \<le> n \<and> n \<le> 13) \<or> (28 \<le> n \<and> n \<le> 32) \<or> n = 133 \<or> n = 160)"

definition py_strip :: "string \<Rightarrow> string" where
  "py_strip s = rev (dropWhile py_isspace (rev (dropWhile py_isspace s)))"

definition py_lower_char :: "char \<Rightarrow> char" where
  "py_lower_char c =
     (let n = (of_char c :: nat)
      in if (65 \<le> n \<and> n \<le> 90) \<or> (192 \<le> n \<and> n \<le> 222 \<and> n \<noteq> 215)
         then char_of (n + 32) else c)"

definition py_lower :: "string \<Rightarrow> string" where
  "py_lower s = map py_lower_char s"

text \<open>\<^verbatim>\<open>str(n)\<close> of an integer.\<close>

definition digit_char :: "nat \<Rightarrow> char" where
  "digit_char d = ''0123456789'' ! (d mod 10)"

fun str_nat :: "nat \<Rightarrow> string" where
  "str_nat n = (if n < 10 then [digit_char n] else str_nat (n div 10) @ [digit_char (n mod 10)])"

declare str_nat.simps [simp del]

definition str_int :: "int \<Rightarrow> string" where
  "str_int i = (if i < 0 then CHR ''-'' # str_nat (nat (- i)) else str_nat (nat i))"


section \<open>The pandas operations the cleaners use\<close>

text \<open>
  The operations are modelled as pandas 2 performs them, cell by cell. Three things
  the library decides are parameters of the model: which texts \<^verbatim>\<open>pd.to_numeric\<close> reads
  as a number (and as which), how \<^verbatim>\<open>str\<close> prints a float, and the year of
  \<^verbatim>\<open>pd.Timestamp.today()\<close>.
\<close>

record pandas =
  parse_number :: "string \<Rightarrow> rat option"
  float_repr :: "rat \<Rightarrow> string"
  current_year :: int

text \<open>
  The number a scalar stands for in a comparison such as \<^verbatim>\<open>df["price"] < 0\<close>; a bool
  counts as 1 or 0, as in Python. A missing value and a text have none: a comparison
  with a missing value is not true.
\<close>

fun num_value :: "scalar \<Rightarrow> rat option" where
  "num_value (NpInt n) = Some (of_int n)"
| "num_value (PyInt n) = Some (of_int n)"
| "num_value (NpFloat q) = Some q"
| "num_value (PyFloat q) = Some q"
| "num_value (NpBool b) = Some (if b then 1 else 0)"
| "num_value (PyBool b) = Some (if b then 1 else 0)"
| "num_value _ = None"

text \<open>
  \<^verbatim>\<open>pd.to_numeric(col, errors="coerce")\<close>, cell by cell: a number stays (as the numpy
  scalar of its column), a text that the parser reads becomes a float, every other
  text and every missing value becomes NaN. (A column of texts read from a file holds
  at least one text that is no number, so that the result column is a float column.)
\<close>

fun to_numeric :: "pandas \<Rightarrow> scalar \<Rightarrow> scalar" where
  "to_numeric P (PyStr s) = (case parse_number P s of Some q \<Rightarrow> NpFloat q | None \<Rightarrow> NaN)"
| "to_numeric P (NpInt n) = NpInt n"
| "to_numeric P (PyInt n) = NpInt n"
| "to_numeric P (NpFloat q) = NpFloat q"
| "to_numeric P (PyFloat q) = NpFloat q"
| "to_numeric P (NpBool b) = NpBool b"
| "to_numeric P (PyBool b) = NpBool b"
| "to_numeric P NaN = NaN"
| "to_numeric P PdNA = NaN"
| "to_numeric P PyNone = NaN"

text \<open>
  \<^verbatim>\<open>.astype("Int64")\<close>, cell by cell. A missing value becomes \<^verbatim>\<open>pd.NA\<close>. A float is
  cast only if the cast loses nothing: a float that is no integer, or no 64-bit
  integer, raises \<^verbatim>\<open>TypeError: cannot safely cast non-equivalent float64 to int64\<close>.
  A text never reaches the cast in this program (\<^verbatim>\<open>to_numeric\<close> comes first); pandas
  rejects it.
\<close>

definition is_integral :: "rat \<Rightarrow> bool" where
  "is_integral q = (of_int \<lfloor>q\<rfloor> = q)"

definition in_int64 :: "int \<Rightarrow> bool" where
  "in_int64 n = (- (2 ^ 63) \<le> n \<and> n < 2 ^ 63)"

definition float_to_Int64 :: "rat \<Rightarrow> error + scalar" where
  "float_to_Int64 q =
     (if is_integral q \<and> in_int64 \<lfloor>q\<rfloor> then Inr (NpInt \<lfloor>q\<rfloor>) else Inl TypeError)"

fun astype_Int64 :: "scalar \<Rightarrow> error + scalar" where
  "astype_Int64 (NpInt n) = Inr (NpInt n)"
| "astype_Int64 (PyInt n) = Inr (NpInt n)"
| "astype_Int64 (NpFloat q) = float_to_Int64 q"
| "astype_Int64 (PyFloat q) = float_to_Int64 q"
| "astype_Int64 (NpBool b) = Inr (NpInt (if b then 1 else 0))"
| "astype_Int64 (PyBool b) = Inr (NpInt (if b then 1 else 0))"
| "astype_Int64 (PyStr s) = Inl TypeError"
| "astype_Int64 NaN = Inr PdNA"
| "astype_Int64 PdNA = Inr PdNA"
| "astype_Int64 PyNone = Inr PdNA"

text \<open>
  \<^verbatim>\<open>.astype("string")\<close>, cell by cell: a missing value becomes \<^verbatim>\<open>pd.NA\<close>, anything else
  its \<^verbatim>\<open>str\<close>.
\<close>

fun astype_string :: "pandas \<Rightarrow> scalar \<Rightarrow> scalar" where
  "astype_string P (PyStr s) = PyStr s"
| "astype_string P (NpInt n) = PyStr (str_int n)"
| "astype_string P (PyInt n) = PyStr (str_int n)"
| "astype_string P (NpFloat q) = PyStr (float_repr P q)"
| "astype_string P (PyFloat q) = PyStr (float_repr P q)"
| "astype_string P (NpBool b) = PyStr (if b then ''True'' else ''False'')"
| "astype_string P (PyBool b) = PyStr (if b then ''True'' else ''False'')"
| "astype_string P NaN = PdNA"
| "astype_string P PdNA = PdNA"
| "astype_string P PyNone = PdNA"

text \<open>
  \<^verbatim>\<open>.str.strip()\<close> and \<^verbatim>\<open>.str.lower()\<close> on a column of dtype \<^verbatim>\<open>string\<close>, whose cells are
  texts or \<^verbatim>\<open>pd.NA\<close>: a missing value stays missing.
\<close>

fun str_strip :: "scalar \<Rightarrow> scalar" where
  "str_strip (PyStr s) = PyStr (py_strip s)"
| "str_strip _ = PdNA"

fun str_lower :: "scalar \<Rightarrow> scalar" where
  "str_lower (PyStr s) = PyStr (py_lower s)"
| "str_lower _ = PdNA"

text \<open>
  \<^verbatim>\<open>s.map({...})\<close> with a dict: the value stored under the cell, NaN when the cell is
  no key of the dict.
\<close>

fun series_map :: "(string \<times> bool) list \<Rightarrow> scalar \<Rightarrow> scalar" where
  "series_map d (PyStr s) = (case map_of d s of Some b \<Rightarrow> PyBool b | None \<Rightarrow> NaN)"
| "series_map d _ = NaN"

definition bool_vocabulary :: "(string \<times> bool) list" where
  "bool_vocabulary =
     [(''true'', True), (''false'', False), (''1'', True), (''0'', False),
      (''yes'', True), (''no'', False)]"

text \<open>
  \<^verbatim>\<open>df.loc[df[c].notna() & bad(df[c]), c] = na\<close>, cell by cell: a present cell whose
  number satisfies \<open>bad\<close> is overwritten with the missing-value marker of the column.
\<close>

definition mask_na :: "(rat \<Rightarrow> bool) \<Rightarrow> scalar \<Rightarrow> scalar \<Rightarrow> scalar" where
  "mask_na bad na x =
     (if \<not> isna x \<and> (case num_value x of Some q \<Rightarrow> bad q | None \<Rightarrow> False) then na else x)"

section \<open>Tables\<close>

text \<open>
  A DataFrame is its list of column names and its rows in order, each row with its
  index label. \<^verbatim>\<open>pd.read_csv\<close> labels the rows 0, 1, 2, ... in file order, and no
  operation of the script relabels them, so that a label names the source row.
\<close>

type_synonym row = "string \<Rightarrow> scalar"

record dataframe =
  columns :: "string list"
  body :: "(nat \<times> row) list"

definition row_of :: "string list \<Rightarrow> scalar list \<Rightarrow> row" where
  "row_of cols cells c = (case map_of (zip cols cells) c of Some v \<Rightarrow> v | None \<Rightarrow> NaN)"

definition frame :: "string list \<Rightarrow> row list \<Rightarrow> dataframe" where
  "frame cols rs = \<lparr>columns = cols, body = zip [0..<length rs] rs\<rparr>"

definition records :: "dataframe \<Rightarrow> (nat \<times> scalar list) list" where
  "records df = map (\<lambda>(i, r). (i, map r (columns df))) (body df)"

definition and_then :: "error + 'a \<Rightarrow> ('a \<Rightarrow> error + 'b) \<Rightarrow> error + 'b" where
  "and_then m f = (case m of Inl e \<Rightarrow> Inl e | Inr v \<Rightarrow> f v)"

fun traverse :: "('a \<Rightarrow> error + 'b) \<Rightarrow> 'a list \<Rightarrow> error + 'b list" where
  "traverse f [] = Inr []"
| "traverse f (x # xs) =
     (case f x of
        Inl e \<Rightarrow> Inl e
      | Inr y \<Rightarrow> (case traverse f xs of Inl e \<Rightarrow> Inl e | Inr ys \<Rightarrow> Inr (y # ys)))"

text \<open>
  \<^verbatim>\<open>df[c] = g(df[c])\<close> for an operation \<open>g\<close> that works cell by cell and may raise;
  \<^verbatim>\<open>df[c]\<close> raises KeyError when the table has no column \<open>c\<close>.
\<close>

fun update_row :: "string \<Rightarrow> (scalar \<Rightarrow> error + scalar) \<Rightarrow> nat \<times> row \<Rightarrow> error + nat \<times> row" where
  "update_row c g (i, r) = (case g (r c) of Inl e \<Rightarrow> Inl e | Inr v \<Rightarrow> Inr (i, r(c := v)))"

definition apply_column :: "dataframe \<Rightarrow> string \<Rightarrow> (scalar \<Rightarrow> error + scalar) \<Rightarrow> error + dataframe" where
  "apply_column df c g =
     (if c \<notin> set (columns df) then Inl (KeyError [c])
      else and_then (traverse (update_row c g) (body df)) (\<lambda>b. Inr (df\<lparr>body := b\<rparr>)))"

definition pure_column :: "dataframe \<Rightarrow> string \<Rightarrow> (scalar \<Rightarrow> scalar) \<Rightarrow> error + dataframe" where
  "pure_column df c g = apply_column df c (\<lambda>x. Inr (g x))"

text \<open>
  \<^verbatim>\<open>df.drop_duplicates(subset=[c])\<close>: the first row of every key stays. Keys are compared
  as Python compares them: \<^verbatim>\<open>1 == 1.0 == True\<close>, and missing values count as equal.
\<close>

fun dup_key :: "scalar \<Rightarrow> scalar" where
  "dup_key (PyStr s) = PyStr s"
| "dup_key x = (case num_value x of Some q \<Rightarrow> NpFloat q | None \<Rightarrow> NaN)"

fun keep_first :: "string \<Rightarrow> scalar list \<Rightarrow> (nat \<times> row) list \<Rightarrow> (nat \<times> row) list" where
  "keep_first c seen [] = []"
| "keep_first c seen ((i, r) # xs) =
     (if dup_key (r c) \<in> set seen then keep_first c seen xs
      else (i, r) # keep_first c (dup_key (r c) # seen) xs)"

definition drop_duplicates :: "dataframe \<Rightarrow> string \<Rightarrow> error + dataframe" where
  "drop_duplicates df c =
     (if c \<notin> set (columns df) then Inl (KeyError [c])
      else Inr (df\<lparr>body := keep_first c [] (body df)\<rparr>))"

text \<open>\<^verbatim>\<open>df.dropna(subset=cs)\<close>: a row with a missing value in one of the columns goes.\<close>

definition dropna :: "dataframe \<Rightarrow> string list \<Rightarrow> error + dataframe" where
  "dropna df cs =
     (case filter (\<lambda>c. c \<notin> set (columns df)) cs of
        c # missing \<Rightarrow> Inl (KeyError (c # missing))
      | [] \<Rightarrow> Inr (df\<lparr>body := filter (\<lambda>(i, r). \<forall>c \<in> set cs. \<not> isna (r c)) (body df)\<rparr>))"

text \<open>
  \<^verbatim>\<open>for col in cols: if col in df.columns: df[col] = df[col].astype("string").str.strip()\<close>
\<close>

fun strip_columns :: "pandas \<Rightarrow> string list \<Rightarrow> dataframe \<Rightarrow> error + dataframe" where
  "strip_columns P [] df = Inr df"
| "strip_columns P (col # cols) df =
     and_then
       (if col \<in> set (columns df)
        then pure_column df col (\<lambda>x. str_strip (astype_string P x))
        else Inr df)
       (strip_columns P cols)"

section \<open>The six cleaners\<close>

text \<open>
  Each cleaner starts with the same two lines,
  \<^verbatim>\<open>
  df = df.drop_duplicates(subset=["listing_id"]).copy()
  df["listing_id"] = pd.to_numeric(df["listing_id"], errors="coerce").astype("Int64")
  \<close>
\<close>

definition clean_key :: "pandas \<Rightarrow> dataframe \<Rightarrow> error + dataframe" where
  "clean_key P df =
     and_then (drop_duplicates df ''listing_id'')
       (\<lambda>df. apply_column df ''listing_id'' (\<lambda>x. astype_Int64 (to_numeric P x)))"

definition clean_core :: "pandas \<Rightarrow> dataframe \<Rightarrow> error + dataframe" where
  "clean_core P df =
     and_then (clean_key P df)
       (\<lambda>df. and_then (pure_column df ''url'' (\<lambda>x. str_strip (astype_string P x)))
       (\<lambda>df. dropna df [''listing_id'', ''url'']))"

definition clean_pricing :: "pandas \<Rightarrow> dataframe \<Rightarrow> error + dataframe" where
  "clean_pricing P df =
     and_then (clean_key P df)
       (\<lambda>df. and_then
          (if ''price'' \<in> set (columns df)
           then and_then (pure_column df ''price'' (to_numeric P))
                  (\<lambda>df. pure_column df ''price'' (mask_na (\<lambda>q. q < 0) NaN))
           else Inr df)
       (\<lambda>df. and_then
          (if ''year'' \<in> set (columns df)
           then and_then (apply_column df ''year'' (\<lambda>x. astype_Int64 (to_numeric P x)))
                  (\<lambda>df. pure_column df ''year''
                     (mask_na (\<lambda>q. q < 1950 \<or> q > of_int (current_year P)) PdNA))
           else Inr df)
       (\<lambda>df. and_then
          (if ''mileage'' \<in> set (columns df)
           then and_then (apply_column df ''mileage'' (\<lambda>x. astype_Int64 (to_numeric P x)))
                  (\<lambda>df. pure_column df ''mileage'' (mask_na (\<lambda>q. q < 0) PdNA))
           else Inr df)
       (\<lambda>df. dropna df [''listing_id'']))))"

definition clean_vehicle :: "pandas \<Rightarrow> dataframe \<Rightarrow> error + dataframe" where
  "clean_vehicle P df =
     and_then (clean_key P df)
       (\<lambda>df. and_then (strip_columns P [''make'', ''model''] df)
       (\<lambda>df. dropna df [''listing_id'']))"

definition clean_specs :: "pandas \<Rightarrow> dataframe \<Rightarrow> error + dataframe" where
  "clean_specs P df =
     and_then (clean_key P df)
       (\<lambda>df. and_then
          (if ''engine_size'' \<in> set (columns df)
           then and_then (pure_column df ''engine_size'' (to_numeric P))
                  (\<lambda>df. pure_column df ''engine_size'' (mask_na (\<lambda>q. q \<le> 0) NaN))
           else Inr df)
       (\<lambda>df. and_then
          (if ''wheel_size'' \<in> set (columns df)
           then and_then (pure_column df ''wheel_size'' (to_numeric P))
                  (\<lambda>df. pure_column df ''wheel_size'' (mask_na (\<lambda>q. q \<le> 0) NaN))
           else Inr df)
       (\<lambda>df. and_then
          (strip_columns P
             [''engine_type'', ''transmission'', ''drive_type'', ''steering_wheel'', ''comfort''] df)
       (\<lambda>df. dropna df [''listing_id'']))))"

text \<open>
  \<^verbatim>\<open>
  s = df[c].astype("string").str.lower().str.strip()
  df[c] = s.map({"true": True, "false": False, "1": True, "0": False, "yes": True, "no": False})
  \<close>
\<close>

definition clean_bool :: "pandas \<Rightarrow> scalar \<Rightarrow> scalar" where
  "clean_bool P x = series_map bool_vocabulary (str_strip (str_lower (astype_string P x)))"

definition clean_appearance :: "pandas \<Rightarrow> dataframe \<Rightarrow> error + dataframe" where
  "clean_appearance P df =
     and_then (clean_key P df)
       (\<lambda>df. and_then (strip_columns P [''body_type'', ''color'', ''interior_material''] df)
       (\<lambda>df. and_then
          (if ''sunroof'' \<in> set (columns df)
           then pure_column df ''sunroof'' (clean_bool P)
           else Inr df)
       (\<lambda>df. dropna df [''listing_id''])))"

definition clean_status :: "pandas \<Rightarrow> dataframe \<Rightarrow> error + dataframe" where
  "clean_status P df =
     and_then (clean_key P df)
       (\<lambda>df. and_then
          (if ''cleared_customs'' \<in> set (columns df)
           then pure_column df ''cleared_customs'' (clean_bool P)
           else Inr df)
       (\<lambda>df. and_then
          (if ''condition'' \<in> set (columns df)
           then pure_column df ''condition'' (\<lambda>x. str_strip (astype_string P x))
           else Inr df)
       (\<lambda>df. dropna df [''listing_id''])))"


section \<open>Rows as parameter tuples\<close>

text \<open>
  \<^verbatim>\<open>
  def rows_as_tuples(df, cols):
      out = []
      for row in df[cols].itertuples(index=False, name=None):
          out.append(tuple(to_py(x) for x in row))
      return out
  \<close>
  \<^verbatim>\<open>df[cols]\<close> raises KeyError when a column of \<open>cols\<close> is not in the table.
\<close>

fun tuples_loop :: "string list \<Rightarrow> (nat \<times> row) list \<Rightarrow> scalar list list \<Rightarrow> scalar list list" where
  "tuples_loop cols [] out = out"
| "tuples_loop cols ((i, r) # rest) out = tuples_loop cols rest (out @ [map (\<lambda>c. to_py (r c)) cols])"

definition rows_as_tuples :: "dataframe \<Rightarrow> string list \<Rightarrow> error + scalar list list" where
  "rows_as_tuples df cols =
     (case filter (\<lambda>c. c \<notin> set (columns df)) cols of
        c # missing \<Rightarrow> Inl (KeyError (c # missing))
      | [] \<Rightarrow> Inr (tuples_loop cols (body df) []))"

section \<open>The run: files, log and database\<close>

text \<open>
  What a run does to the outside is the list of its events, in order: the calls to the
  database driver and the log lines. The outside is a record: the tables that
  \<^verbatim>\<open>pd.read_csv\<close> gives for the paths that exist, and for each call to the driver the
  exception it raises, if any. A statement is named by its table and the offset of its
  first row, so every pattern of failures is some \<open>world\<close>. Only exceptions below
  \<^verbatim>\<open>Exception\<close> are modelled.
\<close>

datatype level = INFO | WARNING | ERROR

datatype message =
    Loaded string nat string
  | After_cleaning "nat list"
  | No_rows string
  | Inserted_batch string nat nat nat
  | All_committed
  | Insert_failed error
  | Rolled_back

datatype event =
    Connect
  | Set_autocommit bool
  | Cursor_open
  | Cursor_close
  | Execute string "scalar list list" nat
  | Commit
  | Rollback
  | Close
  | Log level message

record world =
  lib :: pandas
  files :: "string \<Rightarrow> dataframe option"
  connect_error :: "error option"
  cursor_error :: "error option"
  execute_error :: "string \<Rightarrow> nat \<Rightarrow> error option"
  commit_error :: "error option"
  rollback_error :: "error option"
  close_error :: "error option"

type_synonym 'a action = "event list \<times> (error + 'a)"

definition then_do :: "'a action \<Rightarrow> ('a \<Rightarrow> 'b action) \<Rightarrow> 'b action" where
  "then_do m f =
     (case m of
        (evs, Inl e) \<Rightarrow> (evs, Inl e)
      | (evs, Inr v) \<Rightarrow> (case f v of (evs', r) \<Rightarrow> (evs @ evs', r)))"

definition call :: "event \<Rightarrow> error option \<Rightarrow> unit action" where
  "call ev failure = ([ev], case failure of Some e \<Rightarrow> Inl e | None \<Rightarrow> Inr ())"

definition logging :: "level \<Rightarrow> message \<Rightarrow> unit action" where
  "logging l m = ([Log l m], Inr ())"

definition lift :: "error + 'a \<Rightarrow> 'a action" where
  "lift r = ([], r)"

subsection \<open>Settings\<close>

definition BASE_DIR :: string where
  "BASE_DIR = ''/home/sergey/Desktop/Project''"

definition CSV_FILES :: "(string \<times> string) list" where
  "CSV_FILES =
     [(''core'', BASE_DIR @ ''/core.csv''),
      (''pricing'', BASE_DIR @ ''/pricing.csv''),
      (''vehicle'', BASE_DIR @ ''/vehicle.csv''),
      (''specs'', BASE_DIR @ ''/specs.csv''),
      (''appearance'', BASE_DIR @ ''/appearance.csv''),
      (''status'', BASE_DIR @ ''/status.csv'')]"

definition SCHEMA :: string where
  "SCHEMA = ''car_market''"

definition BATCH_SIZE :: nat where
  "BATCH_SIZE = 5000"

definition environ :: "(string \<times> string) list" where
  "environ =
     [(''PGHOST'', ''localhost''), (''PGPORT'', ''5432''), (''PGDATABASE'', ''car_market''),
      (''PGUSER'', ''sergey''), (''PGPASSWORD'', ''1111'')]"

subsection \<open>Connection, reading, validation\<close>

text \<open>
  \<^verbatim>\<open>
  def get_conn():
      ...
      missing = [k for k in ["PGHOST", "PGDATABASE", "PGUSER", "PGPASSWORD"] if not os.getenv(k)]
      if missing:
          raise RuntimeError(f"Missing env vars: {missing}. Please set them before running.")
      return psycopg2.connect(host=host, port=port, dbname=db, user=user, password=pwd)
  \<close>
\<close>

definition getenv_unset :: "string \<Rightarrow> bool" where
  "getenv_unset k = (case map_of environ k of None \<Rightarrow> True | Some v \<Rightarrow> v = [])"

definition get_conn :: "world \<Rightarrow> unit action" where
  "get_conn w =
     (let missing = filter getenv_unset [''PGHOST'', ''PGDATABASE'', ''PGUSER'', ''PGPASSWORD'']
      in if missing \<noteq> [] then lift (Inl (RuntimeError missing))
         else call Connect (connect_error w))"

text \<open>
  \<^verbatim>\<open>
  def read_csv(name):
      path = CSV_FILES[name]
      if not os.path.exists(path):
          raise FileNotFoundError(f"CSV not found: {path}")
      df = pd.read_csv(path)
      logging.info(f"Loaded {name}: {len(df):,} rows from {path}")
      return df
  \<close>
\<close>

definition read_csv :: "world \<Rightarrow> string \<Rightarrow> dataframe action" where
  "read_csv w name =
     (case map_of CSV_FILES name of
        None \<Rightarrow> lift (Inl (KeyError [name]))
      | Some path \<Rightarrow>
          (case files w path of
             None \<Rightarrow> lift (Inl (FileNotFoundError path))
           | Some df \<Rightarrow>
               then_do (logging INFO (Loaded name (length (body df)) path)) (\<lambda>_. lift (Inr df))))"

text \<open>
  \<^verbatim>\<open>
  def validate_columns(df, required_cols, table_name):
      missing = [c for c in required_cols if c not in df.columns]
      if missing:
          raise ValueError(f"{table_name}: missing columns {missing}")
  \<close>
\<close>

definition validate_columns :: "dataframe \<Rightarrow> string list \<Rightarrow> string \<Rightarrow> error + unit" where
  "validate_columns df required_cols table_name =
     (let missing = filter (\<lambda>c. c \<notin> set (columns df)) required_cols
      in if missing \<noteq> [] then Inl (ValueError (table_name # missing)) else Inr ())"

subsection \<open>Batch insert\<close>

text \<open>
  \<^verbatim>\<open>
  def insert_batches(cur, table, cols, rows):
      if not rows:
          logging.warning(f"{table}: 0 rows to insert")
          return
      col_sql = ", ".join(cols)
      sql = f"INSERT INTO {SCHEMA}.{table} ({col_sql}) VALUES %s ON CONFLICT DO NOTHING"
      total = len(rows)
      for start in range(0, total, BATCH_SIZE):
          batch = rows[start : start + BATCH_SIZE]
          execute_values(cur, sql, batch, page_size=len(batch))
          logging.info(f"{table}: inserted batch {start:,}..{min(start+BATCH_SIZE, total):,} / {total:,}")
  \<close>
  The event \<open>Execute sql batch page_size\<close> is the call of \<^verbatim>\<open>execute_values\<close>; with the
  page as long as the batch, the driver sends the batch as one statement.
\<close>

fun join :: "string \<Rightarrow> string list \<Rightarrow> string" where
  "join sep [] = []"
| "join sep [x] = x"
| "join sep (x # y # ys) = x @ sep @ join sep (y # ys)"

definition insert_sql :: "string \<Rightarrow> string list \<Rightarrow> string" where
  "insert_sql table cols =
     ''INSERT INTO '' @ SCHEMA @ ''.'' @ table @ '' ('' @ join '', '' cols
       @ '') VALUES %s ON CONFLICT DO NOTHING''"

function batch_loop :: "world \<Rightarrow> string \<Rightarrow> string \<Rightarrow> scalar list list \<Rightarrow> nat \<Rightarrow> unit action" where
  "batch_loop w table sql rows start =
     (if start < length rows then
        (let batch = take BATCH_SIZE (drop start rows);
             total = length rows
         in case execute_error w table start of
              Some e \<Rightarrow> ([Execute sql batch (length batch)], Inl e)
            | None \<Rightarrow>
                (case batch_loop w table sql rows (start + BATCH_SIZE) of
                   (evs, r) \<Rightarrow>
                     (Execute sql batch (length batch)
                        # Log INFO (Inserted_batch table start (min (start + BATCH_SIZE) total) total)
                        # evs, r)))
      else ([], Inr ()))"
  by pat_completeness auto
termination
  by (relation "measure (\<lambda>(w, table, sql, rows, start). length rows - start)")
     (auto simp: BATCH_SIZE_def)

declare batch_loop.simps [simp del]

definition insert_batches :: "world \<Rightarrow> string \<Rightarrow> string list \<Rightarrow> scalar list list \<Rightarrow> unit action" where
  "insert_batches w table cols rows =
     (if rows = [] then logging WARNING (No_rows table)
      else batch_loop w table (insert_sql table cols) rows 0)"

subsection \<open>The orchestrator\<close>

record tables =
  core :: dataframe
  pricing :: dataframe
  vehicle :: dataframe
  specs :: dataframe
  appearance :: dataframe
  status :: dataframe

definition load_csvs :: "world \<Rightarrow> tables action" where
  "load_csvs w =
     then_do (read_csv w ''core'') (\<lambda>c.
     then_do (read_csv w ''pricing'') (\<lambda>p.
     then_do (read_csv w ''vehicle'') (\<lambda>v.
     then_do (read_csv w ''specs'') (\<lambda>s.
     then_do (read_csv w ''appearance'') (\<lambda>a.
     then_do (read_csv w ''status'') (\<lambda>st.
     lift (Inr \<lparr>core = c, pricing = p, vehicle = v, specs = s, appearance = a, status = st\<rparr>)))))))"

definition validate_all :: "tables \<Rightarrow> error + unit" where
  "validate_all t =
     and_then (validate_columns (core t) [''listing_id'', ''url''] ''core'') (\<lambda>_.
     and_then (validate_columns (pricing t) [''listing_id''] ''pricing'') (\<lambda>_.
     and_then (validate_columns (vehicle t) [''listing_id''] ''vehicle'') (\<lambda>_.
     and_then (validate_columns (specs t) [''listing_id''] ''specs'') (\<lambda>_.
     and_then (validate_columns (appearance t) [''listing_id''] ''appearance'') (\<lambda>_.
     validate_columns (status t) [''listing_id''] ''status'')))))"

definition clean_all :: "pandas \<Rightarrow> tables \<Rightarrow> error + tables" where
  "clean_all P t =
     and_then (clean_core P (core t)) (\<lambda>c.
     and_then (clean_pricing P (pricing t)) (\<lambda>p.
     and_then (clean_vehicle P (vehicle t)) (\<lambda>v.
     and_then (clean_specs P (specs t)) (\<lambda>s.
     and_then (clean_appearance P (appearance t)) (\<lambda>a.
     and_then (clean_status P (status t)) (\<lambda>st.
     Inr \<lparr>core = c, pricing = p, vehicle = v, specs = s, appearance = a, status = st\<rparr>))))))"

definition counts :: "tables \<Rightarrow> nat list" where
  "counts t = map (\<lambda>df. length (body df)) [core t, pricing t, vehicle t, specs t, appearance t, status t]"

text \<open>One \<^verbatim>\<open>insert_batches(cur, table, cols, rows_as_tuples(df, cols))\<close>.\<close>

definition load_table :: "world \<Rightarrow> string \<Rightarrow> string list \<Rightarrow> dataframe \<Rightarrow> unit action" where
  "load_table w table cols df =
     then_do (lift (rows_as_tuples df cols)) (insert_batches w table cols)"

definition core_cols :: "string list" where
  "core_cols = [''listing_id'', ''url'']"

definition pricing_cols :: "string list" where
  "pricing_cols = [''listing_id'', ''price'', ''year'', ''mileage'']"

definition vehicle_cols :: "string list" where
  "vehicle_cols = [''listing_id'', ''make'', ''model'']"

definition specs_cols :: "string list" where
  "specs_cols =
     [''listing_id'', ''engine_size'', ''engine_type'', ''transmission'', ''drive_type'',
      ''steering_wheel'', ''wheel_size'', ''comfort'']"

definition appearance_cols :: "string list" where
  "appearance_cols = [''listing_id'', ''body_type'', ''color'', ''interior_material'', ''sunroof'']"

definition status_cols :: "string list" where
  "status_cols = [''listing_id'', ''cleared_customs'', ''condition'']"

definition load_six :: "world \<Rightarrow> tables \<Rightarrow> unit action" where
  "load_six w t =
     then_do (load_table w ''core'' core_cols (core t)) (\<lambda>_.
     then_do (load_table w ''pricing'' pricing_cols (pricing t)) (\<lambda>_.
     then_do (load_table w ''vehicle'' vehicle_cols (vehicle t)) (\<lambda>_.
     then_do (load_table w ''specs'' specs_cols (specs t)) (\<lambda>_.
     then_do (load_table w ''appearance'' appearance_cols (appearance t)) (\<lambda>_.
     load_table w ''status'' status_cols (status t))))))"

text \<open>
  \<^verbatim>\<open>with conn.cursor() as cur: ...\<close>: the cursor is closed when the block is left,
  by its end or by an exception.
\<close>

definition with_cursor :: "world \<Rightarrow> unit action \<Rightarrow> unit action" where
  "with_cursor w block =
     then_do (call Cursor_open (cursor_error w))
       (\<lambda>_. case block of (evs, r) \<Rightarrow> (evs @ [Cursor_close], r))"

text \<open>The lines of the \<^verbatim>\<open>try\<close> block after \<^verbatim>\<open>conn = get_conn()\<close>.\<close>

definition try_after_connect :: "world \<Rightarrow> tables \<Rightarrow> unit action" where
  "try_after_connect w t =
     then_do (call (Set_autocommit False) None) (\<lambda>_.
     then_do (with_cursor w (load_six w t)) (\<lambda>_.
     then_do (call Commit (commit_error w)) (\<lambda>_.
     logging INFO All_committed)))"

text \<open>
  \<^verbatim>\<open>
  except Exception as e:
      logging.exception(f"Insert failed: {e}")
      if conn is not None:
          try:
              conn.rollback()
              logging.info("Rolled back transaction.")
          except Exception:
              pass
      raise
  \<close>
  \<open>has_conn\<close> says whether \<^verbatim>\<open>conn\<close> was assigned, that is, whether \<^verbatim>\<open>get_conn()\<close>
  returned.
\<close>

definition except_handler :: "world \<Rightarrow> bool \<Rightarrow> error \<Rightarrow> unit action" where
  "except_handler w has_conn e =
     (Log ERROR (Insert_failed e)
        # (if has_conn
           then (case rollback_error w of
                   None \<Rightarrow> [Rollback, Log INFO Rolled_back]
                 | Some e' \<Rightarrow> [Rollback])
           else []),
      Inl e)"

text \<open>
  \<^verbatim>\<open>
  finally:
      if conn is not None:
          try:
              conn.close()
          except Exception:
              pass
  \<close>
\<close>

definition finally_close :: "world \<Rightarrow> bool \<Rightarrow> unit action \<Rightarrow> unit action" where
  "finally_close w has_conn m =
     (case m of
        (evs, r) \<Rightarrow>
          (if has_conn
           then (case close_error w of None \<Rightarrow> evs @ [Close] | Some e' \<Rightarrow> evs @ [Close])
           else evs,
           r))"

definition transaction :: "world \<Rightarrow> tables \<Rightarrow> unit action" where
  "transaction w t =
     (case get_conn w of
        (evs, Inl e) \<Rightarrow>
          finally_close w False
            (case except_handler w False e of (evs', r) \<Rightarrow> (evs @ evs', r))
      | (evs, Inr _) \<Rightarrow>
          finally_close w True
            (case try_after_connect w t of
               (evs1, Inl e) \<Rightarrow>
                 (case except_handler w True e of (evs', r) \<Rightarrow> (evs @ evs1 @ evs', r))
             | (evs1, Inr _) \<Rightarrow> (evs @ evs1, Inr ())))"

definition main :: "world \<Rightarrow> unit action" where
  "main w =
     then_do (load_csvs w) (\<lambda>raw.
     then_do (lift (validate_all raw)) (\<lambda>_.
     then_do (lift (clean_all (lib w) raw)) (\<lambda>t.
     then_do (logging INFO (After_cleaning (counts t))) (\<lambda>_.
     transaction w t))))"


section \<open>A concrete library for the examples\<close>

text \<open>
  The examples below run the model with a parser that reads the plain decimal
  literals (an optional minus sign, digits, and optionally a point and more digits)
  and nothing else, with a \<^verbatim>\<open>str\<close> for floats that prints the whole part, a point and up
  to 17 decimals, and with the year 2026. pandas reads these literals as the same
  numbers; the examples give the parser no other text than such literals and \<^verbatim>\<open>x\<close>.
\<close>

definition digit_value :: "char \<Rightarrow> nat option" where
  "digit_value c = map_of (zip ''0123456789'' [0..<10]) c"

fun digits_value :: "nat \<Rightarrow> string \<Rightarrow> nat option" where
  "digits_value acc [] = Some acc"
| "digits_value acc (c # cs) =
     (case digit_value c of None \<Rightarrow> None | Some d \<Rightarrow> digits_value (10 * acc + d) cs)"

definition unsigned_decimal :: "string \<Rightarrow> rat option" where
  "unsigned_decimal s =
     (let whole = takeWhile (\<lambda>c. c \<noteq> CHR ''.'') s;
          rest = dropWhile (\<lambda>c. c \<noteq> CHR ''.'') s
      in if whole = [] then None
         else case digits_value 0 whole of
                None \<Rightarrow> None
              | Some a \<Rightarrow>
                  (case rest of
                     [] \<Rightarrow> Some (of_nat a)
                   | point # decimals \<Rightarrow>
                       (case digits_value 0 decimals of
                          None \<Rightarrow> None
                        | Some b \<Rightarrow> Some (of_nat a + of_nat b / 10 ^ length decimals))))"

definition decimal_literal :: "string \<Rightarrow> rat option" where
  "decimal_literal s =
     (case s of
        [] \<Rightarrow> None
      | c # t \<Rightarrow>
          if c = CHR ''-'' then map_option uminus (unsigned_decimal t) else unsigned_decimal s)"

fun fraction_digits :: "nat \<Rightarrow> rat \<Rightarrow> string" where
  "fraction_digits 0 f = []"
| "fraction_digits (Suc k) f =
     (if f = 0 then []
      else digit_char (nat \<lfloor>f * 10\<rfloor>) # fraction_digits k (f * 10 - of_int \<lfloor>f * 10\<rfloor>))"

definition plain_repr :: "rat \<Rightarrow> string" where
  "plain_repr q =
     (let a = \<bar>q\<bar>; fr = fraction_digits 17 (a - of_int \<lfloor>a\<rfloor>)
      in (if q < 0 then ''-'' else []) @ str_int \<lfloor>a\<rfloor> @ ''.'' @ (if fr = [] then ''0'' else fr))"

definition pandas_2026 :: pandas where
  "pandas_2026 = \<lparr>parse_number = decimal_literal, float_repr = plain_repr, current_year = 2026\<rparr>"

text \<open>A table as \<^verbatim>\<open>pd.read_csv\<close> returns it: the column names and the cells row by row.\<close>

definition table :: "string list \<Rightarrow> scalar list list \<Rightarrow> dataframe" where
  "table cols cells = frame cols (map (row_of cols) cells)"


section \<open>Relating a cleaned table to its source\<close>

text \<open>
  The statements about the cleaners relate the rows of the result to the rows of the
  source. \<open>rowwise R df out\<close>: the result has the columns of the source, its labels are
  a subsequence of the source's labels, and every row of the result comes from a
  source row of the same label, the two related by \<open>R\<close>. \<open>cells G\<close> relates two
  rows column by column, and \<open>at_column present c R\<close> is the column-wise relation of a
  step that rewrites column \<open>c\<close> (when \<open>present\<close>) and leaves the others alone.
\<close>

definition rowwise :: "(row \<Rightarrow> row \<Rightarrow> bool) \<Rightarrow> dataframe \<Rightarrow> dataframe \<Rightarrow> bool" where
  "rowwise R df out \<longleftrightarrow>
     columns out = columns df
     \<and> subseq (map fst (body out)) (map fst (body df))
     \<and> (\<forall>(i, r') \<in> set (body out). \<exists>r. (i, r) \<in> set (body df) \<and> R r r')"

definition cells :: "(string \<Rightarrow> scalar \<Rightarrow> scalar \<Rightarrow> bool) \<Rightarrow> row \<Rightarrow> row \<Rightarrow> bool" where
  "cells G r r' \<longleftrightarrow> (\<forall>c. G c (r c) (r' c))"

definition at_column :: "bool \<Rightarrow> string \<Rightarrow> (scalar \<Rightarrow> scalar \<Rightarrow> bool) \<Rightarrow> string \<Rightarrow> scalar \<Rightarrow> scalar \<Rightarrow> bool" where
  "at_column present c R = (\<lambda>d. if present \<and> d = c then R else (=))"


definition core_cells :: "pandas \<Rightarrow> string \<Rightarrow> scalar \<Rightarrow> scalar \<Rightarrow> bool" where
  "core_cells P = (\<lambda>c.
     at_column True ''listing_id'' (\<lambda>x y. astype_Int64 (to_numeric P x) = Inr y) c
     OO at_column True ''url'' (\<lambda>x y. y = str_strip (astype_string P x)) c)"



section \<open>Example tables\<close>

definition pricing_example :: dataframe where
  "pricing_example =
     table [''listing_id'', ''price'', ''year'', ''mileage'']
       [[NpInt 1, NpInt (- 5), NpInt 1899, NpInt (- 1)],
        [NpInt 2, NpInt 10, NpInt 2999, NpInt 7]]"

definition core_example :: dataframe where
  "core_example =
     table [''listing_id'', ''url'']
       [[NpInt 5, PyStr ''a''], [NpInt 6, NaN], [NpInt 7, PyStr '' c '']]"

definition blank_url_example :: dataframe where
  "blank_url_example = table [''listing_id'', ''url''] [[NpInt 5, PyStr ''   '']]"

definition duplicate_key_example :: dataframe where
  "duplicate_key_example =
     table [''listing_id'', ''url'']
       [[PyStr ''1'', PyStr ''a''], [PyStr ''1.0'', PyStr ''b''], [PyStr ''x'', PyStr ''c'']]"

definition fractional_year_example :: dataframe where
  "fractional_year_example = table [''listing_id'', ''year''] [[NpInt 1, NpFloat (4041 / 2)]]"


section \<open>Reading the events of a run\<close>

text \<open>
  The calls of \<^verbatim>\<open>execute_values\<close> among the events, in order: statement text, batch and
  page size. \<open>ceil_div n B\<close> is the number of chunks of size \<open>B\<close> that \<open>n\<close> rows need.
\<close>

fun executed :: "event list \<Rightarrow> (string \<times> scalar list list \<times> nat) list" where
  "executed [] = []"
| "executed (Execute sql batch page # evs) = (sql, batch, page) # executed evs"
| "executed (ev # evs) = executed evs"

definition quiet_world :: world where
  "quiet_world =
     \<lparr>lib = pandas_2026, files = (\<lambda>path. None), connect_error = None, cursor_error = None,
      execute_error = (\<lambda>tname start. None), commit_error = None, rollback_error = None,
      close_error = None\<rparr>"

definition ceil_div :: "nat \<Rightarrow> nat \<Rightarrow> nat" where
  "ceil_div n B = (n + (B - 1)) div B"

text \<open>
  \<open>db_calls\<close> keeps the calls to the database driver and drops the log lines.
  \<open>inserts_into tname cols evs\<close>: every event of \<open>evs\<close> is a call of \<^verbatim>\<open>execute_values\<close>
  with the insert statement of that table. \<open>all_events Q m\<close>: every event of the
  action \<open>m\<close> satisfies \<open>Q\<close>.
\<close>

fun is_log :: "event \<Rightarrow> bool" where
  "is_log (Log l m) = True"
| "is_log ev = False"

definition db_calls :: "event list \<Rightarrow> event list" where
  "db_calls evs = filter (\<lambda>ev. \<not> is_log ev) evs"

definition inserts_into :: "string \<Rightarrow> string list \<Rightarrow> event list \<Rightarrow> bool" where
  "inserts_into tname cols evs \<longleftrightarrow>
     (\<forall>ev \<in> set evs. \<exists>batch page. ev = Execute (insert_sql tname cols) batch page)"

definition all_events :: "(event \<Rightarrow> bool) \<Rightarrow> 'a action \<Rightarrow> bool" where
  "all_events Q m \<longleftrightarrow> (\<forall>ev \<in> set (fst m). Q ev)"

definition load_event :: "string \<Rightarrow> string list \<Rightarrow> event \<Rightarrow> bool" where
  "load_event tname cols ev \<longleftrightarrow>
     is_log ev \<or> (\<exists>batch page. ev = Execute (insert_sql tname cols) batch page)"

section \<open>An example run\<close>

definition vehicle_example :: dataframe where
  "vehicle_example = table vehicle_cols [[NpInt 5, PyStr ''Audi '', PyStr ''A4'']]"

definition specs_example :: dataframe where
  "specs_example =
     table specs_cols
       [[NpInt 5, NpFloat 2, PyStr ''petrol'', PyStr ''manual'', PyStr ''front'', PyStr ''left'',
         NpInt 17, NaN]]"

definition appearance_table_example :: dataframe where
  "appearance_table_example =
     table appearance_cols [[NpInt 5, PyStr ''sedan'', PyStr ''black'', NaN, PyStr ''Yes'']]"

definition status_example :: dataframe where
  "status_example = table status_cols [[NpInt 5, PyStr ''no'', PyStr ''used'']]"

definition example_files :: "string \<Rightarrow> dataframe option" where
  "example_files =
     map_of
       [(BASE_DIR @ ''/core.csv'', core_example),
        (BASE_DIR @ ''/pricing.csv'', pricing_example),
        (BASE_DIR @ ''/vehicle.csv'', vehicle_example),
        (BASE_DIR @ ''/specs.csv'', specs_example),
        (BASE_DIR @ ''/appearance.csv'', appearance_table_example),
        (BASE_DIR @ ''/status.csv'', status_example)]"

definition example_world :: world where
  "example_world = quiet_world\<lparr>files := example_files\<rparr>"

text \<open>The example run with a failing connect, a failing commit, and a failing commit and rollback.\<close>

definition connect_fails_world :: world where
  "connect_fails_world = example_world\<lparr>connect_error := Some (DatabaseError 1)\<rparr>"

definition commit_fails_world :: world where
  "commit_fails_world = example_world\<lparr>commit_error := Some (DatabaseError 2)\<rparr>"

definition rollback_fails_world :: world where
  "rollback_fails_world =
     example_world\<lparr>commit_error := Some (DatabaseError 2), rollback_error := Some (DatabaseError 3)\<rparr>"

section \<open>Lemmas on the table operations\<close>

lemma and_then_Inr: "and_then m f = Inr y \<longleftrightarrow> (\<exists>x. m = Inr x \<and> f x = Inr y)"
  by (cases m) (simp_all add: and_then_def)

lemma keep_first_member: "x \<in> set (keep_first c seen xs) \<Longrightarrow> x \<in> set xs"
proof (induction xs arbitrary: seen)
  case Nil
  then show ?case by simp
next
  case (Cons y ys)
  obtain i r where y: "y = (i, r)" by (cases y)
  show ?case
  proof (cases "dup_key (r c) \<in> set seen")
    case True
    with Cons.prems have "x \<in> set (keep_first c seen ys)" by (simp add: y)
    then show ?thesis using Cons.IH by simp
  next
    case False
    with Cons.prems have "x = y \<or> x \<in> set (keep_first c (dup_key (r c) # seen) ys)"
      by (simp add: y)
    then show ?thesis using Cons.IH by auto
  qed
qed

lemma subseq_keep_first: "subseq (keep_first c seen xs) xs"
proof (induction xs arbitrary: seen)
  case Nil
  then show ?case by simp
next
  case (Cons y ys)
  obtain i r where y: "y = (i, r)" by (cases y)
  show ?case
  proof (cases "dup_key (r c) \<in> set seen")
    case True
    then show ?thesis using Cons.IH[of seen] by (simp add: y list_emb_Cons)
  next
    case False
    then show ?thesis using Cons.IH[of "dup_key (r c) # seen"] by (simp add: y)
  qed
qed

lemma list_all2_right_member:
  assumes "list_all2 Q xs ys" and "y \<in> set ys"
  shows "\<exists>x \<in> set xs. Q x y"
  using assms by (induction rule: list_all2_induct) auto

lemma traverse_Inr:
  assumes "traverse f xs = Inr ys"
  shows "list_all2 (\<lambda>x y. f x = Inr y) xs ys"
  using assms
proof (induction xs arbitrary: ys)
  case Nil
  then show ?case by simp
next
  case (Cons x xs)
  from Cons.prems obtain y zs where "f x = Inr y" and "traverse f xs = Inr zs" and "ys = y # zs"
    by (cases "f x"; cases "traverse f xs") simp_all
  with Cons.IH show ?case by simp
qed

lemma traverse_rows:
  assumes "traverse (update_row c g) xs = Inr ys"
  shows "list_all2 (\<lambda>(i, r) (j, r'). j = i \<and> (\<exists>v. g (r c) = Inr v \<and> r' = r(c := v))) xs ys"
  using traverse_Inr[OF assms]
  by (rule list_all2_mono) (auto split: sum.splits)

lemma list_all2_labels:
  assumes "list_all2 (\<lambda>(i, r) (j, r'). j = i \<and> Q r r') xs ys"
  shows "map fst ys = map fst xs"
  using assms by (induction rule: list_all2_induct) auto

lemma rowwiseI:
  assumes "columns out = columns df"
    and "subseq (map fst (body out)) (map fst (body df))"
    and "\<And>i r'. (i, r') \<in> set (body out) \<Longrightarrow> \<exists>r. (i, r) \<in> set (body df) \<and> R r r'"
  shows "rowwise R df out"
  using assms unfolding rowwise_def by auto

lemma rowwise_row:
  assumes "rowwise R df out" and "(i, r') \<in> set (body out)"
  obtains r where "(i, r) \<in> set (body df)" and "R r r'"
  using assms unfolding rowwise_def by auto

lemma rowwise_labels: "rowwise R df out \<Longrightarrow> subseq (map fst (body out)) (map fst (body df))"
  by (simp add: rowwise_def)

lemma rowwise_trans:
  assumes "rowwise R df mid" and "rowwise S mid out"
  shows "rowwise (\<lambda>r r'. \<exists>m. R r m \<and> S m r') df out"
proof (rule rowwiseI)
  show "columns out = columns df"
    using assms by (simp add: rowwise_def)
  show "subseq (map fst (body out)) (map fst (body df))"
    using rowwise_labels[OF assms(2)] rowwise_labels[OF assms(1)] by (rule subseq_order.trans)
next
  fix i r' assume "(i, r') \<in> set (body out)"
  with assms(2) obtain m where m: "(i, m) \<in> set (body mid)" and S: "S m r'"
    by (rule rowwise_row)
  from assms(1) m obtain r where "(i, r) \<in> set (body df)" and "R r m"
    by (rule rowwise_row)
  with S show "\<exists>r. (i, r) \<in> set (body df) \<and> (\<exists>m. R r m \<and> S m r')" by blast
qed

lemma rowwise_mono:
  assumes "rowwise R df out" and "\<And>r r'. R r r' \<Longrightarrow> S r r'"
  shows "rowwise S df out"
proof (rule rowwiseI)
  fix i r' assume "(i, r') \<in> set (body out)"
  with assms(1) obtain r where "(i, r) \<in> set (body df)" and "R r r'" by (rule rowwise_row)
  with assms(2) show "\<exists>r. (i, r) \<in> set (body df) \<and> S r r'" by blast
qed (use assms(1) in \<open>simp_all add: rowwise_def\<close>)


lemma rowwise_apply_column:
  assumes "apply_column df c g = Inr out"
  shows "rowwise (\<lambda>r r'. \<exists>v. g (r c) = Inr v \<and> r' = r(c := v)) df out"
proof -
  from assms obtain b where
    b: "traverse (update_row c g) (body df) = Inr b"
    and out: "out = df\<lparr>body := b\<rparr>"
    by (auto simp: apply_column_def and_then_Inr split: if_splits)
  note rel = traverse_rows[OF b]
  show ?thesis
  proof (rule rowwiseI)
    show "columns out = columns df" by (simp add: out)
    show "subseq (map fst (body out)) (map fst (body df))"
      using list_all2_labels[OF rel] by (simp add: out)
  next
    fix i r' assume "(i, r') \<in> set (body out)"
    then have "(i, r') \<in> set b" by (simp add: out)
    from list_all2_right_member[OF rel this]
    show "\<exists>r. (i, r) \<in> set (body df) \<and> (\<exists>v. g (r c) = Inr v \<and> r' = r(c := v))"
      by auto
  qed
qed

lemma rowwise_pure_column:
  assumes "pure_column df c g = Inr out"
  shows "rowwise (\<lambda>r r'. r' = r(c := g (r c))) df out"
  using rowwise_apply_column[OF assms[unfolded pure_column_def]]
  by (rule rowwise_mono) auto

lemma rowwise_drop_duplicates:
  assumes "drop_duplicates df c = Inr out"
  shows "rowwise (=) df out"
proof -
  from assms have out: "out = df\<lparr>body := keep_first c [] (body df)\<rparr>"
    by (auto simp: drop_duplicates_def split: if_splits)
  show ?thesis
  proof (rule rowwiseI)
    show "subseq (map fst (body out)) (map fst (body df))"
      by (simp add: out subseq_keep_first subseq_map)
  next
    fix i r' assume "(i, r') \<in> set (body out)"
    then have "(i, r') \<in> set (keep_first c [] (body df))" by (simp add: out)
    then have "(i, r') \<in> set (body df)" by (rule keep_first_member)
    then show "\<exists>r. (i, r) \<in> set (body df) \<and> r = r'" by simp
  qed (simp add: out)
qed

lemma rowwise_dropna:
  assumes "dropna df cs = Inr out"
  shows "rowwise (\<lambda>r r'. r' = r \<and> (\<forall>c \<in> set cs. \<not> isna (r c))) df out"
proof -
  from assms have out: "out = df\<lparr>body := filter (\<lambda>(i, r). \<forall>c \<in> set cs. \<not> isna (r c)) (body df)\<rparr>"
    by (auto simp: dropna_def split: list.splits)
  show ?thesis
  proof (rule rowwiseI)
    show "subseq (map fst (body out)) (map fst (body df))"
      by (simp add: out subseq_map)
  next
    fix i r' assume "(i, r') \<in> set (body out)"
    then show "\<exists>r. (i, r) \<in> set (body df) \<and> r' = r \<and> (\<forall>c \<in> set cs. \<not> isna (r c))"
      by (auto simp: out)
  qed (simp add: out)
qed

lemma cellsD: "cells G r r' \<Longrightarrow> G c (r c) (r' c)"
  by (simp add: cells_def)


lemma rowwise_cells_trans:
  assumes "rowwise (cells G) df mid" and "rowwise (cells H) mid out"
  shows "rowwise (cells (\<lambda>c. G c OO H c)) df out"
  using rowwise_trans[OF assms]
  by (rule rowwise_mono) (auto simp: cells_def)

lemma rowwise_cells_apply:
  assumes "apply_column df c g = Inr out"
  shows "rowwise (cells (at_column True c (\<lambda>x y. g x = Inr y))) df out"
  using rowwise_apply_column[OF assms]
  by (rule rowwise_mono) (auto simp: cells_def at_column_def)

lemma rowwise_cells_pure:
  assumes "pure_column df c g = Inr out"
  shows "rowwise (cells (at_column True c (\<lambda>x y. y = g x))) df out"
  using rowwise_pure_column[OF assms]
  by (rule rowwise_mono) (auto simp: cells_def at_column_def)



lemma rowwise_cells_drop_duplicates:
  assumes "drop_duplicates df c = Inr out"
  shows "rowwise (cells (\<lambda>c. (=))) df out"
  using rowwise_drop_duplicates[OF assms]
  by (rule rowwise_mono) (simp add: cells_def)




lemma rowwise_cells_key:
  assumes "clean_key P df = Inr out"
  shows "rowwise (cells (at_column True ''listing_id''
                    (\<lambda>x y. astype_Int64 (to_numeric P x) = Inr y))) df out"
proof -
  from assms obtain mid where d: "drop_duplicates df ''listing_id'' = Inr mid"
    and k: "apply_column mid ''listing_id'' (\<lambda>x. astype_Int64 (to_numeric P x)) = Inr out"
    by (auto simp: clean_key_def and_then_Inr)
  from rowwise_cells_trans[OF rowwise_cells_drop_duplicates[OF d] rowwise_cells_apply[OF k]]
  show ?thesis by (rule rowwise_mono) (auto simp: cells_def)
qed


lemma rowwise_dropna_cells:
  assumes "rowwise (cells G) df mid" and "dropna mid cs = Inr out"
  shows "rowwise (\<lambda>r r'. cells G r r' \<and> (\<forall>c \<in> set cs. \<not> isna (r' c))) df out"
  using rowwise_trans[OF assms(1) rowwise_dropna[OF assms(2)]]
  by (rule rowwise_mono) auto




lemma frame_member:
  "(i, r) \<in> set (body (frame cols rs)) \<longleftrightarrow> i < length rs \<and> r = rs ! i"
proof -
  have "(i, r) \<in> set (zip [0..<length rs] rs) \<longleftrightarrow> i < length rs \<and> r = rs ! i"
    by (auto simp: in_set_zip intro!: exI[of _ i])
  then show ?thesis by (simp add: frame_def)
qed






lemma rowwise_clean_core:
  assumes "clean_core P df = Inr out"
  shows "rowwise (\<lambda>r r'. cells (core_cells P) r r'
                   \<and> \<not> isna (r' ''listing_id'') \<and> \<not> isna (r' ''url'')) df out"
proof -
  from assms obtain a b where
    a: "clean_key P df = Inr a"
    and b: "pure_column a ''url'' (\<lambda>x. str_strip (astype_string P x)) = Inr b"
    and e: "dropna b [''listing_id'', ''url''] = Inr out"
    unfolding clean_core_def and_then_Inr by blast
  have "rowwise (cells (core_cells P)) df b"
    unfolding core_cells_def
    by (rule rowwise_cells_trans[OF rowwise_cells_key[OF a] rowwise_cells_pure[OF b]])
  from rowwise_dropna_cells[OF this e] show ?thesis
    by (rule rowwise_mono) simp
qed











lemma run_projr: "\<not> isl m \<Longrightarrow> m = Inr (projr m)"
  by (cases m) simp_all


lemma isna_strip_string: "isna (str_strip (astype_string P x)) \<longleftrightarrow> isna x"
  by (cases x) simp_all

lemma core_cells_url: "core_cells P ''url'' = (\<lambda>x y. y = str_strip (astype_string P x))"
  by (simp add: core_cells_def at_column_def eq_OO)







lemma ceil_div_step:
  assumes "0 < B" and "0 < x"
  shows "ceil_div x B = Suc (ceil_div (x - B) B)"
proof (cases "x \<le> B")
  case True
  have "(x + (B - 1)) div B = 1"
  proof (rule div_nat_eqI)
    show "B * 1 \<le> x + (B - 1)" using assms by arith
    show "x + (B - 1) < B * Suc 1" using True assms by arith
  qed
  moreover have "(x - B + (B - 1)) div B = 0" using True assms by simp
  ultimately show ?thesis by (simp only: ceil_div_def One_nat_def)
next
  case False
  define y where "y = x - B"
  with False have x: "x = y + B" by simp
  have "y + B + (B - 1) = (y + (B - 1)) + B" by simp
  then have "(y + B + (B - 1)) div B = Suc ((y + (B - 1)) div B)"
    using assms(1) by (simp only: div_add_self2)
  then show ?thesis by (simp only: ceil_div_def x add_diff_cancel_right')
qed

lemma batch_loop_chunks:
  assumes "\<forall>start. execute_error w tname start = None"
  shows "snd (batch_loop w tname sql rows start) = Inr ()
    \<and> length (executed (fst (batch_loop w tname sql rows start)))
        = ceil_div (length rows - start) BATCH_SIZE
    \<and> concat (map (\<lambda>(s, batch, page). batch) (executed (fst (batch_loop w tname sql rows start))))
        = drop start rows
    \<and> (\<forall>(s, batch, page) \<in> set (executed (fst (batch_loop w tname sql rows start))).
          s = sql \<and> batch \<noteq> [] \<and> length batch \<le> BATCH_SIZE \<and> page = length batch)"
  using assms
proof (induction w tname sql rows start rule: batch_loop.induct)
  case (1 w tname sql rows start)
  show ?case
  proof (cases "start < length rows")
    case False
    moreover have "ceil_div 0 BATCH_SIZE = 0" by (simp add: ceil_div_def BATCH_SIZE_def)
    ultimately show ?thesis by (simp add: batch_loop.simps[of w tname sql rows start])
  next
    case True
    have pos: "0 < BATCH_SIZE" by (simp add: BATCH_SIZE_def)
    have none: "execute_error w tname start = None" using "1.prems" by simp
    obtain evs r where rec: "batch_loop w tname sql rows (start + BATCH_SIZE) = (evs, r)"
      by (cases "batch_loop w tname sql rows (start + BATCH_SIZE)")
    from "1.IH"[OF True refl refl none "1.prems"] rec
    have ih: "r = Inr ()"
      "length (executed evs) = ceil_div (length rows - (start + BATCH_SIZE)) BATCH_SIZE"
      "concat (map (\<lambda>(s, batch, page). batch) (executed evs)) = drop (start + BATCH_SIZE) rows"
      "\<forall>(s, batch, page) \<in> set (executed evs).
          s = sql \<and> batch \<noteq> [] \<and> length batch \<le> BATCH_SIZE \<and> page = length batch"
      by simp_all
    define batch where "batch = take BATCH_SIZE (drop start rows)"
    have unfold: "batch_loop w tname sql rows start =
        (Execute sql batch (length batch)
           # Log INFO (Inserted_batch tname start (min (start + BATCH_SIZE) (length rows)) (length rows))
           # evs, r)"
      using True none rec
      by (simp add: batch_loop.simps[of w tname sql rows start] Let_def batch_def)
    have split: "batch @ drop (start + BATCH_SIZE) rows = drop start rows"
      unfolding batch_def by (metis add.commute append_take_drop_id drop_drop)
    from True pos have nonempty: "batch \<noteq> []" by (simp add: batch_def)
    have short: "length batch \<le> BATCH_SIZE" by (simp add: batch_def)
    from True have "0 < length rows - start" by simp
    from ceil_div_step[OF pos this]
    have count: "ceil_div (length rows - start) BATCH_SIZE
        = Suc (ceil_div (length rows - (start + BATCH_SIZE)) BATCH_SIZE)"
      by (simp only: diff_diff_left)
    show ?thesis
      unfolding unfold using ih split nonempty short count
      by simp
  qed
qed

lemma then_doE:
  assumes "then_do m f = (evs, r)"
  obtains (fail) e where "m = (evs, Inl e)" and "r = Inl e"
  | (ok) e1 x e2 where "m = (e1, Inr x)" and "f x = (e2, r)" and "evs = e1 @ e2"
proof -
  obtain e1 r1 where m: "m = (e1, r1)" by (cases m)
  show thesis
  proof (cases r1)
    case (Inl e)
    with assms m have "m = (evs, Inl e)" "r = Inl e" by (simp_all add: then_do_def)
    then show thesis by (rule fail)
  next
    case (Inr x)
    obtain e2 r2 where fx: "f x = (e2, r2)" by (cases "f x")
    with assms m Inr have "evs = e1 @ e2" "r = r2" by (simp_all add: then_do_def)
    with m Inr fx show thesis by (intro ok[of e1 x e2]) simp_all
  qed
qed

lemma db_calls_append: "db_calls (xs @ ys) = db_calls xs @ db_calls ys"
  by (simp add: db_calls_def)

lemma db_calls_quiet: "db_calls evs = [] \<longleftrightarrow> (\<forall>ev \<in> set evs. is_log ev)"
  by (auto simp: db_calls_def filter_empty_conv)

lemma fst_then_do:
  "fst (then_do m f) = (case snd m of Inl e \<Rightarrow> fst m | Inr x \<Rightarrow> fst m @ fst (f x))"
  by (cases m; cases "snd m") (auto simp: then_do_def split: prod.splits)

lemma snd_then_do:
  "snd (then_do m f) = (case snd m of Inl e \<Rightarrow> Inl e | Inr x \<Rightarrow> snd (f x))"
  by (cases m; cases "snd m") (auto simp: then_do_def split: prod.splits)

lemma all_events_then_do:
  assumes "all_events Q m" and "\<And>x. all_events Q (f x)"
  shows "all_events Q (then_do m f)"
  using assms by (auto simp: all_events_def fst_then_do split: sum.splits)

lemma all_events_lift: "all_events Q (lift r)"
  by (simp add: all_events_def lift_def)

lemma all_events_logging: "Q (Log l m) \<Longrightarrow> all_events Q (logging l m)"
  by (simp add: all_events_def logging_def)

lemma all_events_call: "Q ev \<Longrightarrow> all_events Q (call ev failure)"
  by (simp add: all_events_def call_def)

lemma read_csv_logs: "all_events is_log (read_csv w name)"
  unfolding read_csv_def
  by (auto split: option.splits intro!: all_events_then_do all_events_lift all_events_logging)

lemma load_csvs_logs: "all_events is_log (load_csvs w)"
  unfolding load_csvs_def
  by (intro all_events_then_do read_csv_logs all_events_lift)

lemma batch_loop_events:
  assumes "\<And>batch page. Q (Execute sql batch page)" and "\<And>l m. Q (Log l m)"
  shows "all_events Q (batch_loop w tname sql rows start)"
  using assms
proof (induction w tname sql rows start rule: batch_loop.induct)
  case (1 w tname sql rows start)
  note Q = "1.prems"
  show ?case
  proof (cases "start < length rows")
    case False
    then show ?thesis by (simp add: batch_loop.simps[of w tname sql rows start] all_events_def)
  next
    case True
    show ?thesis
    proof (cases "execute_error w tname start")
      case (Some e)
      with True Q show ?thesis
        by (simp add: batch_loop.simps[of w tname sql rows start] all_events_def Let_def)
    next
      case None
      from "1.IH"[OF True refl refl None Q]
      have "all_events Q (batch_loop w tname sql rows (start + BATCH_SIZE))" .
      with True None Q show ?thesis
        by (simp add: batch_loop.simps[of w tname sql rows start] all_events_def Let_def
            split: prod.splits)
    qed
  qed
qed

lemma insert_batches_events:
  assumes "\<And>batch page. Q (Execute (insert_sql tname cols) batch page)" and "\<And>l m. Q (Log l m)"
  shows "all_events Q (insert_batches w tname cols rows)"
  unfolding insert_batches_def
  using assms by (auto intro!: batch_loop_events all_events_logging)

lemma load_table_events:
  assumes "\<And>batch page. Q (Execute (insert_sql tname cols) batch page)" and "\<And>l m. Q (Log l m)"
  shows "all_events Q (load_table w tname cols df)"
  unfolding load_table_def
  using assms by (intro all_events_then_do all_events_lift insert_batches_events)

lemma load_table_load_events: "all_events (load_event tname cols) (load_table w tname cols df)"
  by (rule load_table_events) (simp_all add: load_event_def)

lemma load_events_calls:
  assumes "all_events (load_event tname cols) m"
  shows "inserts_into tname cols (db_calls (fst m))"
  using assms by (auto simp: all_events_def load_event_def inserts_into_def db_calls_def)

lemma get_conn_run:
  "get_conn w = ([Connect], case connect_error w of Some e \<Rightarrow> Inl e | None \<Rightarrow> Inr ())"
  by (simp add: get_conn_def getenv_unset_def environ_def call_def)

lemma transaction_unfold:
  "transaction w t =
     (case connect_error w of
        Some e \<Rightarrow> ([Connect, Log ERROR (Insert_failed e)], Inl e)
      | None \<Rightarrow>
          (case try_after_connect w t of
             (evs1, Inl e) \<Rightarrow>
               ([Connect] @ evs1 @ Log ERROR (Insert_failed e)
                  # (case rollback_error w of
                       None \<Rightarrow> [Rollback, Log INFO Rolled_back]
                     | Some e' \<Rightarrow> [Rollback]) @ [Close],
                Inl e)
           | (evs1, Inr u) \<Rightarrow> ([Connect] @ evs1 @ [Close], Inr ())))"
  by (simp add: transaction_def get_conn_run finally_close_def except_handler_def
      split: option.splits sum.splits prod.splits)

lemma main_cases:
  assumes "main w = (evs, r)"
  shows "(\<forall>ev \<in> set evs. is_log ev)
     \<or> (\<exists>pre t tevs. evs = pre @ tevs \<and> (\<forall>ev \<in> set pre. is_log ev) \<and> transaction w t = (tevs, r))"
  using assms[unfolded main_def]
proof (cases rule: then_doE)
  case (fail e)
  with load_csvs_logs[of w] show ?thesis by (simp add: all_events_def)
next
  case (ok e1 raw e2)
  from ok(1) load_csvs_logs[of w] have e1: "\<forall>ev \<in> set e1. is_log ev"
    by (simp add: all_events_def)
  from ok(2) show ?thesis
  proof (cases rule: then_doE)
    case (fail e)
    then have "e2 = []" by (simp add: lift_def)
    with ok(3) e1 show ?thesis by simp
  next
    case validated: (ok e3 u e4)
    then have e3: "e3 = []" by (simp add: lift_def)
    from validated(2) show ?thesis
    proof (cases rule: then_doE)
      case (fail e)
      then have "e4 = []" by (simp add: lift_def)
      with ok(3) validated(3) e3 e1 show ?thesis by simp
    next
      case cleaned: (ok e5 t e6)
      then have e5: "e5 = []" by (simp add: lift_def)
      from cleaned(2) show ?thesis
      proof (cases rule: then_doE)
        case (fail e)
        then show ?thesis by (simp add: logging_def)
      next
        case logged: (ok e7 v e8)
        then have e7: "e7 = [Log INFO (After_cleaning (counts t))]" by (simp add: logging_def)
        have "evs = (e1 @ e7) @ e8"
          using ok(3) validated(3) cleaned(3) logged(3) e3 e5 by simp
        moreover have "\<forall>ev \<in> set (e1 @ e7). is_log ev" using e1 e7 by simp
        ultimately show ?thesis using logged(2) by blast
      qed
    qed
  qed
qed

lemma all_events_with_cursor:
  assumes "all_events Q block" and "Q Cursor_open" and "Q Cursor_close"
  shows "all_events Q (with_cursor w block)"
  unfolding with_cursor_def
  using assms
  by (intro all_events_then_do all_events_call) (auto simp: all_events_def split: prod.splits)

lemma load_six_events:
  assumes "\<And>sql batch page. Q (Execute sql batch page)" and "\<And>l m. Q (Log l m)"
  shows "all_events Q (load_six w t)"
  unfolding load_six_def
  using assms by (intro all_events_then_do load_table_events)

lemma try_after_connect_no_rollback:
  "all_events (\<lambda>ev. ev \<noteq> Rollback) (try_after_connect w t)"
  unfolding try_after_connect_def
  by (intro all_events_then_do all_events_call all_events_logging all_events_with_cursor
      load_six_events) simp_all

lemma load_six_run:
  assumes "snd (load_six w t) = Inr ()"
  shows "fst (load_six w t) =
     fst (load_table w ''core'' core_cols (core t))
     @ fst (load_table w ''pricing'' pricing_cols (pricing t))
     @ fst (load_table w ''vehicle'' vehicle_cols (vehicle t))
     @ fst (load_table w ''specs'' specs_cols (specs t))
     @ fst (load_table w ''appearance'' appearance_cols (appearance t))
     @ fst (load_table w ''status'' status_cols (status t))"
  using assms
  by (simp add: load_six_def fst_then_do snd_then_do split: sum.splits)

lemma try_after_connect_run:
  assumes "snd (try_after_connect w t) = Inr ()"
  shows "snd (load_six w t) = Inr ()
    \<and> fst (try_after_connect w t) =
        [Set_autocommit False, Cursor_open] @ fst (load_six w t)
        @ [Cursor_close, Commit, Log INFO All_committed]"
  using assms
  by (simp add: try_after_connect_def with_cursor_def call_def logging_def
      fst_then_do snd_then_do split: sum.splits prod.splits option.splits)

lemma same_world_read_csv: "read_csv (w\<lparr>rollback_error := x\<rparr>) name = read_csv w name"
  by (simp add: read_csv_def cong: option.case_cong)

lemma same_world_load_csvs: "load_csvs (w\<lparr>rollback_error := x\<rparr>) = load_csvs w"
  by (simp add: load_csvs_def same_world_read_csv)

lemma same_world_batch_loop:
  "batch_loop (w\<lparr>rollback_error := x\<rparr>) tname sql rows start = batch_loop w tname sql rows start"
proof (induction w tname sql rows start rule: batch_loop.induct)
  case (1 w tname sql rows start)
  show ?case
  proof (cases "start < length rows \<and> execute_error w tname start = None")
    case True
    with "1.IH"[of "take BATCH_SIZE (drop start rows)" "length rows"] show ?thesis
      by (simp add: batch_loop.simps[of _ tname sql rows start] Let_def)
  next
    case False
    then show ?thesis
      by (auto simp: batch_loop.simps[of _ tname sql rows start] Let_def split: option.splits)
  qed
qed

lemma same_world_insert_batches:
  "insert_batches (w\<lparr>rollback_error := x\<rparr>) = insert_batches w"
  by (intro ext) (simp add: insert_batches_def same_world_batch_loop)

lemma same_world_try_after_connect:
  "try_after_connect (w\<lparr>rollback_error := x\<rparr>) t = try_after_connect w t"
  by (simp add: try_after_connect_def with_cursor_def load_six_def load_table_def
      same_world_insert_batches)

lemma same_world_transaction:
  "snd (transaction (w\<lparr>rollback_error := x\<rparr>) t) = snd (transaction w t)"
  by (simp add: transaction_unfold same_world_try_after_connect
      split: option.splits prod.splits sum.splits)

lemma same_world_main: "snd (main (w\<lparr>rollback_error := x\<rparr>)) = snd (main w)"
  by (simp add: main_def snd_then_do same_world_load_csvs same_world_transaction
      cong: sum.case_cong)

lemma transaction_failure:
  assumes "transaction w t = (tevs, Inl e)"
  shows "(connect_error w = Some e \<and> tevs = [Connect, Log ERROR (Insert_failed e)])
    \<or> (connect_error w = None
        \<and> (\<exists>evs1. Rollback \<notin> set evs1
              \<and> tevs = [Connect] @ evs1 @ Log ERROR (Insert_failed e)
                   # (case rollback_error w of
                        None \<Rightarrow> [Rollback, Log INFO Rolled_back]
                      | Some e' \<Rightarrow> [Rollback]) @ [Close]))"
proof (cases "connect_error w")
  case (Some e')
  with assms show ?thesis by (auto simp: transaction_unfold)
next
  case None
  obtain evs1 r1 where t1: "try_after_connect w t = (evs1, r1)"
    by (cases "try_after_connect w t")
  from try_after_connect_no_rollback[of w t] t1 have calm: "Rollback \<notin> set evs1"
    by (auto simp: all_events_def)
  from assms None t1 have "r1 = Inl e"
    and "tevs = [Connect] @ evs1 @ Log ERROR (Insert_failed e)
                   # (case rollback_error w of
                        None \<Rightarrow> [Rollback, Log INFO Rolled_back]
                      | Some e' \<Rightarrow> [Rollback]) @ [Close]"
    by (auto simp: transaction_unfold split: sum.splits)
  with None calm show ?thesis by blast
qed

section \<open>The scalar normalizer\<close>

text \<open>
  C9. \<open>to_py\<close> is total and idempotent. It is a function on scalars with no error
  among its results (neither \<^verbatim>\<open>pd.isna\<close> nor \<^verbatim>\<open>item\<close> raises on a scalar, and the
  \<^verbatim>\<open>except\<close> branch would swallow a raising \<^verbatim>\<open>item\<close>); it returns \<^verbatim>\<open>None\<close> exactly for the
  missing-value markers; it turns each numpy scalar into the plain Python value; its
  result has no \<^verbatim>\<open>item\<close> method left; and applying it twice is applying it once.
\<close>

theorem to_py_total_idempotent:
  "to_py (to_py x) = to_py x
   \<and> (to_py x = PyNone) = isna x
   \<and> item (to_py x) = None
   \<and> to_py (NpInt n) = PyInt n \<and> to_py (NpFloat q) = PyFloat q \<and> to_py (NpBool b) = PyBool b"
  by (cases x) (simp_all add: to_py_def)

section \<open>Pricing: values outside their domain\<close>



section \<open>Key uniqueness\<close>

text \<open>
  C2. No two rows of a cleaned table share a key. The cleaners drop duplicates by the
  raw key and coerce the key to an integer afterwards, so two raw keys that differ as
  texts and read as the same number both stay: from the file rows \<^verbatim>\<open>1,a\<close>, \<^verbatim>\<open>1.0,b\<close>
  and \<^verbatim>\<open>x,c\<close> (a key column of texts) \<open>clean_core\<close> returns two rows with the key 1.
\<close>

theorem duplicate_keys_survive:
  "map_sum id records (clean_core pandas_2026 duplicate_key_example)
     = Inr [(0, [NpInt 1, PyStr ''a'']), (1, [NpInt 1, PyStr ''b''])]"
  by code_simp

section \<open>A bad field and the run of a cleaner\<close>

text \<open>
  C3. A field that fails its rule becomes missing and the cleaner never raises. The
  cast \<^verbatim>\<open>.astype("Int64")\<close> of the \<^verbatim>\<open>year\<close> and \<^verbatim>\<open>mileage\<close> columns raises on a number that is
  no integer: on the one-row table with the year 2020.5, \<open>clean_pricing\<close> ends in a
  TypeError.
\<close>

theorem fractional_year_raises:
  "map_sum id records (clean_pricing pandas_2026 fractional_year_example) = Inl TypeError"
  by code_simp

section \<open>Core rows without a url\<close>

text \<open>
  C4, as amended. In every run of \<open>clean_core\<close> that returns, on a table as read
  from its file, a row whose \<^verbatim>\<open>url\<close> is missing is not in the result, whatever its
  \<^verbatim>\<open>listing_id\<close>.
\<close>

theorem core_absent_url_excluded:
  assumes "clean_core P (frame cols rs) = Inr out" and "i < length rs"
    and "isna ((rs ! i) ''url'')"
  shows "i \<notin> fst ` set (body out)"
proof
  assume "i \<in> fst ` set (body out)"
  then obtain r' where "(i, r') \<in> set (body out)" by auto
  with rowwise_clean_core[OF assms(1)]
  obtain r where r: "(i, r) \<in> set (body (frame cols rs))"
    and c: "cells (core_cells P) r r'" and url: "\<not> isna (r' ''url'')"
    by (rule rowwise_row) blast
  from r have "r = rs ! i" by (simp add: frame_member)
  moreover from cellsD[OF c, of "''url''"] have "r' ''url'' = str_strip (astype_string P (r ''url''))"
    by (simp add: core_cells_url)
  ultimately have "isna (r' ''url'')" using assms(3) by (simp add: isna_strip_string)
  with url show False by simp
qed

theorem core_absent_url_excluded_witness:
  "\<not> isl (clean_core pandas_2026 core_example)
   \<and> isna (row_of [''listing_id'', ''url''] [NpInt 6, NaN] ''url'')
   \<and> 1 \<notin> fst ` set (body (projr (clean_core pandas_2026 core_example)))"
proof -
  have ok: "\<not> isl (clean_core pandas_2026 core_example)"
    by code_simp
  from run_projr[OF ok]
  have run: "clean_core pandas_2026
               (frame [''listing_id'', ''url'']
                  (map (row_of [''listing_id'', ''url''])
                     [[NpInt 5, PyStr ''a''], [NpInt 6, NaN], [NpInt 7, PyStr '' c '']]))
             = Inr (projr (clean_core pandas_2026 core_example))"
    by (simp add: core_example_def table_def)
  have na: "isna (row_of [''listing_id'', ''url''] [NpInt 6, NaN] ''url'')"
    by (simp add: row_of_def)
  from core_absent_url_excluded[OF run, of 1] na
  have "1 \<notin> fst ` set (body (projr (clean_core pandas_2026 core_example)))"
    by simp
  with ok na show ?thesis by simp
qed

text \<open>
  C4, as stated, also excludes a row whose \<^verbatim>\<open>url\<close> is empty after trimming. The code
  trims and then drops missing values only, and the empty text is not missing: the row
  with the key 5 and the url of three blanks stays, with the empty url.
\<close>

theorem core_blank_url_counterexample:
  "py_strip ''   '' = []
   \<and> map_sum id records (clean_core pandas_2026 blank_url_example) = Inr [(0, [NpInt 5, PyStr []])]"
  by code_simp

section \<open>The boolean-like fields\<close>



section \<open>Row order\<close>



section \<open>Chunks of the batch loader\<close>

text \<open>
  C7. For a non-empty list of \<open>n\<close> tuples, and a cursor that raises on no
  statement, \<open>insert_batches\<close> returns and issues \<open>ceil (n / 5000)\<close> calls of
  \<^verbatim>\<open>execute_values\<close>, each with the insert statement of the table, a non-empty batch of
  at most 5000 tuples and the page as long as the batch (one statement per batch); the
  batches, in the order of the calls, concatenate to the input, so every tuple is in
  exactly one batch and the batches follow the input order.
\<close>

theorem insert_batches_partition:
  assumes "rows \<noteq> []" and "\<forall>start. execute_error w tname start = None"
  shows "snd (insert_batches w tname cols rows) = Inr ()
    \<and> length (executed (fst (insert_batches w tname cols rows))) = (length rows + 4999) div 5000
    \<and> concat (map (\<lambda>(sql, batch, page). batch) (executed (fst (insert_batches w tname cols rows)))) = rows
    \<and> (\<forall>(sql, batch, page) \<in> set (executed (fst (insert_batches w tname cols rows))).
          sql = insert_sql tname cols \<and> batch \<noteq> [] \<and> length batch \<le> 5000 \<and> page = length batch)"
proof -
  have size: "BATCH_SIZE = 5000" "ceil_div (length rows - 0) 5000 = (length rows + 4999) div 5000"
    by (simp_all add: BATCH_SIZE_def ceil_div_def)
  from assms(1) have run: "insert_batches w tname cols rows = batch_loop w tname (insert_sql tname cols) rows 0"
    by (simp add: insert_batches_def)
  from batch_loop_chunks[OF assms(2), of "insert_sql tname cols" rows 0]
  show ?thesis unfolding run size by simp
qed

theorem insert_batches_partition_witness:
  "[[PyInt 1, PyStr ''a''], [PyInt 2, PyStr ''b'']] \<noteq> []
   \<and> (\<forall>start. execute_error quiet_world ''core'' start = None)
   \<and> snd (insert_batches quiet_world ''core'' core_cols [[PyInt 1, PyStr ''a''], [PyInt 2, PyStr ''b'']]) = Inr ()
   \<and> executed (fst (insert_batches quiet_world ''core'' core_cols [[PyInt 1, PyStr ''a''], [PyInt 2, PyStr ''b'']]))
       = [(''INSERT INTO car_market.core (listing_id, url) VALUES %s ON CONFLICT DO NOTHING'',
           [[PyInt 1, PyStr ''a''], [PyInt 2, PyStr ''b'']], 2)]"
proof -
  have quiet: "\<forall>start. execute_error quiet_world ''core'' start = None"
    by (simp add: quiet_world_def)
  have ne: "[[PyInt 1, PyStr ''a''], [PyInt 2, PyStr ''b'']] \<noteq> []" by simp
  have run: "executed (fst (insert_batches quiet_world ''core'' core_cols [[PyInt 1, PyStr ''a''], [PyInt 2, PyStr ''b'']]))
       = [(''INSERT INTO car_market.core (listing_id, url) VALUES %s ON CONFLICT DO NOTHING'',
           [[PyInt 1, PyStr ''a''], [PyInt 2, PyStr ''b'']], 2)]"
    by code_simp
  from insert_batches_partition[OF ne quiet, of core_cols]
  have "snd (insert_batches quiet_world ''core'' core_cols [[PyInt 1, PyStr ''a''], [PyInt 2, PyStr ''b'']]) = Inr ()"
    by simp
  with quiet ne run show ?thesis by simp
qed

section \<open>The order of the loads\<close>

text \<open>
  C8. In every run of \<open>main\<close> that succeeds, the calls to the database driver are,
  in this order: one connect, autocommit switched off, one cursor opened, the insert
  statements of Core, then those of Pricing, Vehicle, Specs, Appearance and Status, the
  cursor closed, one commit, and the connection closed. So the six loads run one after
  the other in the fixed order, inside one connection and one transaction, and every
  statement of Core precedes every statement of a child table.
\<close>

theorem loads_in_fixed_order:
  assumes "main w = (evs, Inr ())"
  shows "\<exists>c p v s a st.
     db_calls evs =
       [Connect, Set_autocommit False, Cursor_open] @ c @ p @ v @ s @ a @ st
       @ [Cursor_close, Commit, Close]
     \<and> inserts_into ''core'' core_cols c
     \<and> inserts_into ''pricing'' pricing_cols p
     \<and> inserts_into ''vehicle'' vehicle_cols v
     \<and> inserts_into ''specs'' specs_cols s
     \<and> inserts_into ''appearance'' appearance_cols a
     \<and> inserts_into ''status'' status_cols st"
proof -
  from main_cases[OF assms] obtain pre t tevs where
    evs: "evs = pre @ tevs" and pre: "\<forall>ev \<in> set pre. is_log ev"
    and tr: "transaction w t = (tevs, Inr ())"
  proof
    assume quiet: "\<forall>ev \<in> set evs. is_log ev"
    from assms have "snd (main w) = Inr ()" by simp
    then have "Connect \<in> set (fst (main w))"
      by (auto simp: main_def snd_then_do fst_then_do transaction_unfold logging_def
          split: sum.splits option.splits prod.splits)
    with assms quiet have False by auto
    then show thesis ..
  qed blast
  from tr have conn: "connect_error w = None"
    by (auto simp: transaction_unfold split: option.splits)
  obtain evs1 r1 where t1: "try_after_connect w t = (evs1, r1)"
    by (cases "try_after_connect w t")
  with tr conn have r1: "r1 = Inr ()" and tevs: "tevs = [Connect] @ evs1 @ [Close]"
    by (auto simp: transaction_unfold split: sum.splits)
  from t1 r1 have ok: "snd (try_after_connect w t) = Inr ()" by simp
  note run = try_after_connect_run[OF ok]
  from run have six: "snd (load_six w t) = Inr ()" by simp
  define c where "c = db_calls (fst (load_table w ''core'' core_cols (core t)))"
  define p where "p = db_calls (fst (load_table w ''pricing'' pricing_cols (pricing t)))"
  define v where "v = db_calls (fst (load_table w ''vehicle'' vehicle_cols (vehicle t)))"
  define s where "s = db_calls (fst (load_table w ''specs'' specs_cols (specs t)))"
  define a where "a = db_calls (fst (load_table w ''appearance'' appearance_cols (appearance t)))"
  define st where "st = db_calls (fst (load_table w ''status'' status_cols (status t)))"
  have "db_calls pre = []" using pre by (simp add: db_calls_quiet)
  moreover have "evs1 = [Set_autocommit False, Cursor_open] @ fst (load_six w t)
        @ [Cursor_close, Commit, Log INFO All_committed]"
    using run t1 by simp
  ultimately have "db_calls evs =
       [Connect, Set_autocommit False, Cursor_open] @ c @ p @ v @ s @ a @ st
       @ [Cursor_close, Commit, Close]"
    unfolding evs tevs load_six_run[OF six] c_def p_def v_def s_def a_def st_def
    by (simp add: db_calls_append) (simp add: db_calls_def)
  moreover have "inserts_into ''core'' core_cols c"
    unfolding c_def by (rule load_events_calls[OF load_table_load_events])
  moreover have "inserts_into ''pricing'' pricing_cols p"
    unfolding p_def by (rule load_events_calls[OF load_table_load_events])
  moreover have "inserts_into ''vehicle'' vehicle_cols v"
    unfolding v_def by (rule load_events_calls[OF load_table_load_events])
  moreover have "inserts_into ''specs'' specs_cols s"
    unfolding s_def by (rule load_events_calls[OF load_table_load_events])
  moreover have "inserts_into ''appearance'' appearance_cols a"
    unfolding a_def by (rule load_events_calls[OF load_table_load_events])
  moreover have "inserts_into ''status'' status_cols st"
    unfolding st_def by (rule load_events_calls[OF load_table_load_events])
  ultimately show ?thesis by blast
qed

theorem loads_in_fixed_order_witness:
  "main example_world =
     ([Log INFO (Loaded ''core'' 3 ''/home/sergey/Desktop/Project/core.csv''),
       Log INFO (Loaded ''pricing'' 2 ''/home/sergey/Desktop/Project/pricing.csv''),
       Log INFO (Loaded ''vehicle'' 1 ''/home/sergey/Desktop/Project/vehicle.csv''),
       Log INFO (Loaded ''specs'' 1 ''/home/sergey/Desktop/Project/specs.csv''),
       Log INFO (Loaded ''appearance'' 1 ''/home/sergey/Desktop/Project/appearance.csv''),
       Log INFO (Loaded ''status'' 1 ''/home/sergey/Desktop/Project/status.csv''),
       Log INFO (After_cleaning [2, 2, 1, 1, 1, 1]),
       Connect, Set_autocommit False, Cursor_open,
       Execute (insert_sql ''core'' core_cols) [[PyInt 5, PyStr ''a''], [PyInt 7, PyStr ''c'']] 2,
       Log INFO (Inserted_batch ''core'' 0 2 2),
       Execute (insert_sql ''pricing'' pricing_cols)
         [[PyInt 1, PyNone, PyNone, PyNone], [PyInt 2, PyInt 10, PyNone, PyInt 7]] 2,
       Log INFO (Inserted_batch ''pricing'' 0 2 2),
       Execute (insert_sql ''vehicle'' vehicle_cols) [[PyInt 5, PyStr ''Audi'', PyStr ''A4'']] 1,
       Log INFO (Inserted_batch ''vehicle'' 0 1 1),
       Execute (insert_sql ''specs'' specs_cols)
         [[PyInt 5, PyFloat 2, PyStr ''petrol'', PyStr ''manual'', PyStr ''front'', PyStr ''left'',
           PyInt 17, PyNone]] 1,
       Log INFO (Inserted_batch ''specs'' 0 1 1),
       Execute (insert_sql ''appearance'' appearance_cols)
         [[PyInt 5, PyStr ''sedan'', PyStr ''black'', PyNone, PyBool True]] 1,
       Log INFO (Inserted_batch ''appearance'' 0 1 1),
       Execute (insert_sql ''status'' status_cols) [[PyInt 5, PyBool False, PyStr ''used'']] 1,
       Log INFO (Inserted_batch ''status'' 0 1 1),
       Cursor_close, Commit, Log INFO All_committed, Close],
      Inr ())
   \<and> (\<exists>c p v s a st.
        db_calls (fst (main example_world)) =
          [Connect, Set_autocommit False, Cursor_open] @ c @ p @ v @ s @ a @ st
          @ [Cursor_close, Commit, Close]
        \<and> inserts_into ''core'' core_cols c
        \<and> inserts_into ''pricing'' pricing_cols p
        \<and> inserts_into ''vehicle'' vehicle_cols v
        \<and> inserts_into ''specs'' specs_cols s
        \<and> inserts_into ''appearance'' appearance_cols a
        \<and> inserts_into ''status'' status_cols st)"
proof -
  have run: "main example_world =
     ([Log INFO (Loaded ''core'' 3 ''/home/sergey/Desktop/Project/core.csv''),
       Log INFO (Loaded ''pricing'' 2 ''/home/sergey/Desktop/Project/pricing.csv''),
       Log INFO (Loaded ''vehicle'' 1 ''/home/sergey/Desktop/Project/vehicle.csv''),
       Log INFO (Loaded ''specs'' 1 ''/home/sergey/Desktop/Project/specs.csv''),
       Log INFO (Loaded ''appearance'' 1 ''/home/sergey/Desktop/Project/appearance.csv''),
       Log INFO (Loaded ''status'' 1 ''/home/sergey/Desktop/Project/status.csv''),
       Log INFO (After_cleaning [2, 2, 1, 1, 1, 1]),
       Connect, Set_autocommit False, Cursor_open,
       Execute (insert_sql ''core'' core_cols) [[PyInt 5, PyStr ''a''], [PyInt 7, PyStr ''c'']] 2,
       Log INFO (Inserted_batch ''core'' 0 2 2),
       Execute (insert_sql ''pricing'' pricing_cols)
         [[PyInt 1, PyNone, PyNone, PyNone], [PyInt 2, PyInt 10, PyNone, PyInt 7]] 2,
       Log INFO (Inserted_batch ''pricing'' 0 2 2),
       Execute (insert_sql ''vehicle'' vehicle_cols) [[PyInt 5, PyStr ''Audi'', PyStr ''A4'']] 1,
       Log INFO (Inserted_batch ''vehicle'' 0 1 1),
       Execute (insert_sql ''specs'' specs_cols)
         [[PyInt 5, PyFloat 2, PyStr ''petrol'', PyStr ''manual'', PyStr ''front'', PyStr ''left'',
           PyInt 17, PyNone]] 1,
       Log INFO (Inserted_batch ''specs'' 0 1 1),
       Execute (insert_sql ''appearance'' appearance_cols)
         [[PyInt 5, PyStr ''sedan'', PyStr ''black'', PyNone, PyBool True]] 1,
       Log INFO (Inserted_batch ''appearance'' 0 1 1),
       Execute (insert_sql ''status'' status_cols) [[PyInt 5, PyBool False, PyStr ''used'']] 1,
       Log INFO (Inserted_batch ''status'' 0 1 1),
       Cursor_close, Commit, Log INFO All_committed, Close],
      Inr ())"
    by code_simp
  from loads_in_fixed_order[OF run] show ?thesis
    unfolding run by simp
qed

section \<open>Failure of the transaction\<close>

text \<open>
  C1, as amended. Take a run of \<open>main\<close> that ends in an error \<open>e\<close> after the
  Transacting stage was entered (the connect was attempted). The error that \<open>main\<close>
  raises is \<open>e\<close> whatever the rollback does: it is the error that was caught and logged,
  never one of the rollback. If the connect itself failed, \<open>e\<close> is its error, there is
  no connection, and no rollback is attempted: the run ends with the connect and the
  log line of the failure. If the connection was obtained, exactly one rollback is
  attempted after the log line of the failure, and the connection is closed; a rollback
  that succeeds is logged, a rollback that fails is swallowed without a log line.
\<close>

theorem transacting_failure_rolls_back:
  assumes "main w = (evs, Inl e)" and "Connect \<in> set evs"
  shows "(\<forall>x. snd (main (w\<lparr>rollback_error := x\<rparr>)) = Inl e)
    \<and> (connect_error w \<noteq> None \<longrightarrow>
          connect_error w = Some e \<and> Rollback \<notin> set evs
          \<and> (\<exists>pre. evs = pre @ [Connect, Log ERROR (Insert_failed e)]))
    \<and> (connect_error w = None \<and> rollback_error w = None \<longrightarrow>
          (\<exists>pre. Rollback \<notin> set pre
             \<and> evs = pre @ [Log ERROR (Insert_failed e), Rollback, Log INFO Rolled_back, Close]))
    \<and> (connect_error w = None \<and> rollback_error w \<noteq> None \<longrightarrow>
          (\<exists>pre. Rollback \<notin> set pre
             \<and> evs = pre @ [Log ERROR (Insert_failed e), Rollback, Close]))"
proof -
  have same: "\<forall>x. snd (main (w\<lparr>rollback_error := x\<rparr>)) = Inl e"
    using assms(1) by (simp add: same_world_main)
  from main_cases[OF assms(1)] assms(2) obtain pre t tevs where
    evs: "evs = pre @ tevs" and pre: "\<forall>ev \<in> set pre. is_log ev"
    and tr: "transaction w t = (tevs, Inl e)"
    by auto
  from pre have calm: "Rollback \<notin> set pre" by auto
  from transaction_failure[OF tr] show ?thesis
  proof
    assume a: "connect_error w = Some e \<and> tevs = [Connect, Log ERROR (Insert_failed e)]"
    with calm have "Rollback \<notin> set evs" by (simp add: evs)
    with a same evs show ?thesis by auto
  next
    assume "connect_error w = None
        \<and> (\<exists>evs1. Rollback \<notin> set evs1
              \<and> tevs = [Connect] @ evs1 @ Log ERROR (Insert_failed e)
                   # (case rollback_error w of
                        None \<Rightarrow> [Rollback, Log INFO Rolled_back]
                      | Some e' \<Rightarrow> [Rollback]) @ [Close])"
    then obtain evs1 where conn: "connect_error w = None" and c1: "Rollback \<notin> set evs1"
      and tevs: "tevs = [Connect] @ evs1 @ Log ERROR (Insert_failed e)
                   # (case rollback_error w of
                        None \<Rightarrow> [Rollback, Log INFO Rolled_back]
                      | Some e' \<Rightarrow> [Rollback]) @ [Close]"
      by blast
    define before where "before = pre @ [Connect] @ evs1"
    from calm c1 have cb: "Rollback \<notin> set before" by (simp add: before_def)
    have ok: "evs = before @ [Log ERROR (Insert_failed e), Rollback, Log INFO Rolled_back, Close]"
      if "rollback_error w = None"
      using that by (simp add: evs tevs before_def)
    have bad: "evs = before @ [Log ERROR (Insert_failed e), Rollback, Close]"
      if "rollback_error w \<noteq> None"
      using that by (auto simp: evs tevs before_def)
    from same conn cb ok bad show ?thesis by blast
  qed
qed

theorem transacting_failure_rolls_back_witness:
  "snd (main commit_fails_world) = Inl (DatabaseError 2)
   \<and> Connect \<in> set (fst (main commit_fails_world))
   \<and> connect_error commit_fails_world = None \<and> rollback_error commit_fails_world = None
   \<and> (\<forall>x. snd (main (commit_fails_world\<lparr>rollback_error := x\<rparr>)) = Inl (DatabaseError 2))
   \<and> (\<exists>pre. Rollback \<notin> set pre
        \<and> fst (main commit_fails_world)
            = pre @ [Log ERROR (Insert_failed (DatabaseError 2)), Rollback, Log INFO Rolled_back, Close])"
proof -
  have res: "snd (main commit_fails_world) = Inl (DatabaseError 2)"
    by code_simp
  have conn: "Connect \<in> set (fst (main commit_fails_world))"
    by code_simp
  have quiet: "connect_error commit_fails_world = None" "rollback_error commit_fails_world = None"
    by (simp_all add: commit_fails_world_def example_world_def quiet_world_def)
  from res have run: "main commit_fails_world = (fst (main commit_fails_world), Inl (DatabaseError 2))"
    by (metis prod.collapse)
  from transacting_failure_rolls_back[OF run conn] quiet res conn show ?thesis
    by simp
qed

text \<open>
  C1, as stated, has a rollback attempted in every such run and a failing rollback
  logged. With a failing connect the run raises the connect error and attempts no
  rollback; with a failing commit and a failing rollback, nothing is logged after the
  rollback: the run ends with the rollback and the close.
\<close>

theorem rollback_not_always_counterexample:
  "snd (main connect_fails_world) = Inl (DatabaseError 1)
   \<and> Connect \<in> set (fst (main connect_fails_world))
   \<and> Rollback \<notin> set (fst (main connect_fails_world))
   \<and> snd (main rollback_fails_world) = Inl (DatabaseError 2)
   \<and> dropWhile (\<lambda>ev. ev \<noteq> Rollback) (fst (main rollback_fails_world)) = [Rollback, Close]"
  by code_simp

end
